theory Spec2Isabelle
  imports Main
begin

section \<open>AWS RDS relational database resource (aws\_relational\_db.py)\<close>

text \<open>
  A shallow embedding of the class \<^verbatim>\<open>AwsRelationalDb\<close>. The object's attributes are a
  record, every method takes the object and the world and returns its result (or the
  exception it raises) together with the updated object and world. Everything outside
  the class (the command executor, the subnet resource, the base class helpers) is an
  environment \<open>env\<close>: a deterministic function of the history of calls made so far.
\<close>

subsection \<open>Engines and module constants\<close>

text \<open>
  The engine names are constants of \<^verbatim>\<open>sql_engine_utils\<close>, which is not among the sources:
  each constant is a constructor (distinct names are distinct strings), and
  \<open>OtherEngine s\<close> is any other string.
\<close>

datatype engine =
    MYSQL | POSTGRES | AURORA_MYSQL | AURORA_MYSQL56 | AURORA_POSTGRES
  | SQLSERVER | SQLSERVER_EXPRESS | SQLSERVER_STANDARD | SQLSERVER_ENTERPRISE
  | OtherEngine string

definition DEFAULT_MYSQL_VERSION :: string where "DEFAULT_MYSQL_VERSION = ''5.7.16''"
definition DEFAULT_POSTGRES_VERSION :: string where "DEFAULT_POSTGRES_VERSION = ''9.6.9''"
definition DEFAULT_MYSQL_AURORA_VERSION :: string where "DEFAULT_MYSQL_AURORA_VERSION = ''5.7.12''"
definition DEFAULT_MYSQL56_AURORA_VERSION :: string where "DEFAULT_MYSQL56_AURORA_VERSION = ''5.6.10a''"
definition DEFAULT_POSTGRES_AURORA_VERSION :: string where "DEFAULT_POSTGRES_AURORA_VERSION = ''9.6.9''"
definition DEFAULT_SQLSERVER_VERSION :: string where "DEFAULT_SQLSERVER_VERSION = ''14.00.3223.3.v1''"

definition DEFAULT_MYSQL_PORT :: int where "DEFAULT_MYSQL_PORT = 3306"
definition DEFAULT_POSTGRES_PORT :: int where "DEFAULT_POSTGRES_PORT = 5432"
definition DEFAULT_SQLSERVER_PORT :: int where "DEFAULT_SQLSERVER_PORT = 1433"

definition IS_READY_TIMEOUT :: nat where "IS_READY_TIMEOUT = 60 * 60 * 1"

fun MAP_ENGINE_TO_DEFAULT_VERSION :: "engine \<Rightarrow> string option" where
  "MAP_ENGINE_TO_DEFAULT_VERSION MYSQL = Some DEFAULT_MYSQL_VERSION"
| "MAP_ENGINE_TO_DEFAULT_VERSION AURORA_MYSQL = Some DEFAULT_MYSQL_AURORA_VERSION"
| "MAP_ENGINE_TO_DEFAULT_VERSION AURORA_MYSQL56 = Some DEFAULT_MYSQL56_AURORA_VERSION"
| "MAP_ENGINE_TO_DEFAULT_VERSION POSTGRES = Some DEFAULT_POSTGRES_VERSION"
| "MAP_ENGINE_TO_DEFAULT_VERSION AURORA_POSTGRES = Some DEFAULT_POSTGRES_AURORA_VERSION"
| "MAP_ENGINE_TO_DEFAULT_VERSION SQLSERVER_EXPRESS = Some DEFAULT_SQLSERVER_VERSION"
| "MAP_ENGINE_TO_DEFAULT_VERSION SQLSERVER_STANDARD = Some DEFAULT_SQLSERVER_VERSION"
| "MAP_ENGINE_TO_DEFAULT_VERSION SQLSERVER_ENTERPRISE = Some DEFAULT_SQLSERVER_VERSION"
| "MAP_ENGINE_TO_DEFAULT_VERSION SQLSERVER = None"
| "MAP_ENGINE_TO_DEFAULT_VERSION (OtherEngine s) = None"

definition AURORA_ENGINES :: "engine list" where
  "AURORA_ENGINES = [AURORA_MYSQL56, AURORA_MYSQL, AURORA_POSTGRES]"

definition SQL_SERVER_ENGINES :: "engine list" where
  "SQL_SERVER_ENGINES = [SQLSERVER_EXPRESS, SQLSERVER_STANDARD, SQLSERVER_ENTERPRISE]"

definition RDS_ENGINES :: "engine list" where
  "RDS_ENGINES = [MYSQL, POSTGRES, SQLSERVER_EXPRESS, SQLSERVER_STANDARD, SQLSERVER_ENTERPRISE]"

subsection \<open>Exceptions\<close>

datatype error =
    IssueCommandError                  \<comment> \<open>the executor, asked to raise on a non-zero exit\<close>
  | JSONDecodeError                    \<comment> \<open>\<^verbatim>\<open>json.loads\<close> on text that is not JSON\<close>
  | TypeError | KeyError | IndexError | ValueError
  | Exception string                   \<comment> \<open>\<^verbatim>\<open>raise Exception(msg)\<close>\<close>
  | RelationalDbEngineNotFoundError
  | AwsRelationalDbCrossRegionError
  | CollaboratorError                  \<comment> \<open>raised inside a collaborator that is not in the sources\<close>

subsection \<open>JSON values as \<^verbatim>\<open>json.loads\<close> returns them\<close>

datatype json =
    JNull | JBool bool | JNum int | JStr string | JArr "json list" | JObj "(string \<times> json) list"

text \<open>
  Python truthiness: \<^verbatim>\<open>None\<close>, \<^verbatim>\<open>False\<close>, zero and empty containers are false. Numbers
  are integers here: the class only tests a number for truth or hands it to \<^verbatim>\<open>int()\<close>.
\<close>

fun truthy :: "json \<Rightarrow> bool" where
  "truthy JNull = False"
| "truthy (JBool b) = b"
| "truthy (JNum n) = (n \<noteq> 0)"
| "truthy (JStr s) = (s \<noteq> [])"
| "truthy (JArr xs) = (xs \<noteq> [])"
| "truthy (JObj kvs) = (kvs \<noteq> [])"

text \<open>
  \<^verbatim>\<open>j[key]\<close> with a string key and \<^verbatim>\<open>j[0]\<close>, with the exception Python raises. Of a
  repeated key \<^verbatim>\<open>json.loads\<close> keeps the last value; the keys of a JSON object are
  strings, so \<^verbatim>\<open>d[0]\<close> on an object is a KeyError.
\<close>

fun getitem_key :: "json \<Rightarrow> string \<Rightarrow> error + json" where
  "getitem_key (JObj kvs) k = (case map_of (rev kvs) k of None \<Rightarrow> Inl KeyError | Some v \<Rightarrow> Inr v)"
| "getitem_key j k = Inl TypeError"

fun getitem_0 :: "json \<Rightarrow> error + json" where
  "getitem_0 (JArr xs) = (case xs of [] \<Rightarrow> Inl IndexError | x # _ \<Rightarrow> Inr x)"
| "getitem_0 (JStr s) = (case s of [] \<Rightarrow> Inl IndexError | c # _ \<Rightarrow> Inr (JStr [c]))"
| "getitem_0 (JObj kvs) = Inl KeyError"
| "getitem_0 j = Inl TypeError"

subsection \<open>Subnets, provider commands, the environment and the world\<close>

text \<open>
  A subnet object is identified by its reference (Python object identity); the database
  keeps references to subnet objects in two lists.
\<close>

datatype subnet = AwsSubnet (subnet_ref: nat) (subnet_zone: string)

text \<open>
  The provider commands the class builds, with the arguments that identify the target
  (the last argument is the region). \<^verbatim>\<open>'%s' % x\<close> prints \<^verbatim>\<open>None\<close> as the text None.
\<close>

datatype aws_cmd =
    RdsCreateDbSubnetGroup string "subnet list" string
  | Ec2AuthorizeSecurityGroupIngress "string option" int string
  | RdsDeleteDbSubnetGroup "string option" string
  | RdsDeleteDbParameterGroup string string
  | RdsCreateDbInstance string "string option" string string
  | RdsCreateDbCluster string string
  | RdsModifyDbInstance string string
  | RdsDeleteDbInstance string string
  | RdsDeleteDbCluster string string
  | RdsDescribeDbInstances string string
  | RdsDescribeDbClusters string string
  | RdsRebootDbInstance string string
  | RdsFailoverDbCluster string string string

definition str_of :: "string option \<Rightarrow> string" where
  "str_of x = (case x of None \<Rightarrow> ''None'' | Some s \<Rightarrow> s)"

text \<open>
  What the executor returns: the exit code, the standard output as \<^verbatim>\<open>json.loads\<close> reads it
  (\<open>None\<close> when it is not JSON), and the seconds the call took.
\<close>

record cmd_result =
  retcode :: int
  stdout :: "json option"
  duration :: nat

text \<open>Methods of collaborators that are not in the sources.\<close>

datatype ext_call =
    DisallowAllPorts | PrintUnmanagedDbStats | SetupUnmanagedDatabase
  | AllowPortInSecurityGroup int | InstallPackages | BasePostCreate | IsReadyUnmanaged

datatype call =
    Command aws_cmd bool          \<comment> \<open>\<^verbatim>\<open>IssueCommand(cmd, raise_on_failure)\<close>\<close>
  | GetZonesInRegion string
  | SubnetCreate subnet           \<comment> \<open>\<^verbatim>\<open>AwsSubnet(...).Create()\<close>\<close>
  | SubnetDelete subnet           \<comment> \<open>\<^verbatim>\<open>subnet.Delete()\<close>\<close>
  | External ext_call
  | Sleep nat                     \<comment> \<open>\<^verbatim>\<open>time.sleep(n)\<close>\<close>

datatype outcome =
    Exit cmd_result               \<comment> \<open>what the executor returned\<close>
  | Returned                      \<comment> \<open>the call returned normally\<close>
  | ReturnedBool bool
  | ReturnedZones "string list"
  | Raised                        \<comment> \<open>the call raised an exception\<close>

type_synonym event = "call \<times> outcome"

text \<open>
  The environment answers each call from the events so far, so it can be any
  deterministic provider, with state of its own.
\<close>

record env =
  issue :: "event list \<Rightarrow> aws_cmd \<Rightarrow> cmd_result"
  raise_on_failure_default :: bool
  zones_in_region :: "event list \<Rightarrow> string \<Rightarrow> string list option"
  subnet_create :: "event list \<Rightarrow> subnet \<Rightarrow> bool"
  external :: "event list \<Rightarrow> ext_call \<Rightarrow> bool option"
  py_int :: "json \<Rightarrow> int option"

record world =
  trace :: "event list"       \<comment> \<open>every call made so far, oldest first\<close>
  clock :: nat                \<comment> \<open>wall clock, in seconds\<close>
  next_ref :: nat             \<comment> \<open>the reference the next new object gets\<close>

subsection \<open>The object\<close>

record aws_db =
  \<comment> \<open>the specification and the client VM, fixed before the lifecycle starts\<close>
  is_managed_db :: bool
  engine :: engine
  high_availability :: bool
  spec_zones :: "string list option"
  db_spec_zone :: string
  run_uri :: string
  client_region :: string
  client_subnet :: subnet
  vpc_default_security_group_id :: string
  server_ip_address :: string
  \<comment> \<open>the attributes \<^verbatim>\<open>__init__\<close> sets and the methods update\<close>
  instance_id :: string
  cluster_id :: "string option"
  all_instance_ids :: "string list"
  primary_zone :: "json option"
  secondary_zone :: "json option"
  parameter_group :: "string option"
  zones :: "string list"
  region :: string
  subnets_owned_by_db :: "subnet list"
  subnets_used_by_db :: "subnet list"
  unmanaged_db_exists :: "bool option"
  db_subnet_group_name :: "string option"
  security_group_id :: "string option"
  has_firewall :: bool
  endpoint :: "json option"
  port :: "int option"

text \<open>
  \<^verbatim>\<open>__init__\<close>. The arguments are the specification, the client VM and the value
  \<^verbatim>\<open>util.GetRegionFromZones\<close> gives for the zones (the function is not in the sources).
\<close>

definition init ::
  "bool \<Rightarrow> engine \<Rightarrow> bool \<Rightarrow> string list option \<Rightarrow> string \<Rightarrow> string \<Rightarrow> string \<Rightarrow> subnet \<Rightarrow>
   string \<Rightarrow> string \<Rightarrow> (string list \<Rightarrow> string) \<Rightarrow> aws_db" where
  "init managed eng ha szones dzone uri cregion csubnet sg sip GetRegionFromZones =
     (let zs = (case szones of Some z \<Rightarrow> z | None \<Rightarrow> [dzone]) in
      \<lparr> is_managed_db = managed, engine = eng, high_availability = ha, spec_zones = szones,
        db_spec_zone = dzone, run_uri = uri, client_region = cregion, client_subnet = csubnet,
        vpc_default_security_group_id = sg, server_ip_address = sip,
        instance_id = ''pkb-db-instance-'' @ uri,
        cluster_id = None,
        all_instance_ids = [],
        primary_zone = None,
        secondary_zone = None,
        parameter_group = None,
        zones = zs,
        region = GetRegionFromZones zs,
        subnets_owned_by_db = [],
        subnets_used_by_db = [],
        unmanaged_db_exists = (if managed then None else Some False),
        db_subnet_group_name = None,
        security_group_id = None,
        has_firewall = False,
        endpoint = None,
        port = None \<rparr>)"

subsection \<open>Collaborators\<close>

text \<open>
  Modelled from the spec: \<^verbatim>\<open>vm_util.IssueCommand\<close> is not among the sources. The
  command executor returns the output and the exit code of a provider command and never
  raises for a non-zero exit unless the raise-on-failure flag requests it. The call is
  recorded and the clock advances by the time it took.
\<close>

definition IssueCommand :: "env \<Rightarrow> aws_cmd \<Rightarrow> bool \<Rightarrow> world \<Rightarrow> (error + cmd_result) \<times> world" where
  "IssueCommand env cmd raise_on_failure w =
     (let r = issue env (trace w) cmd;
          w' = w\<lparr>trace := trace w @ [(Command cmd raise_on_failure, Exit r)],
                 clock := clock w + duration r\<rparr>
      in if raise_on_failure \<and> retcode r \<noteq> 0 then (Inl IssueCommandError, w') else (Inr r, w'))"

text \<open>\<^verbatim>\<open>time.sleep(n)\<close>.\<close>

definition sleep :: "nat \<Rightarrow> world \<Rightarrow> world" where
  "sleep n w = w\<lparr>trace := trace w @ [(Sleep n, Returned)], clock := clock w + n\<rparr>"

text \<open>
  A method of a collaborator that is not in the sources (the base class, the firewall,
  the query tools): the environment decides whether it raises.
\<close>

definition call_external :: "env \<Rightarrow> ext_call \<Rightarrow> world \<Rightarrow> (error + bool) \<times> world" where
  "call_external env c w =
     (let r = external env (trace w) c;
          w' = w\<lparr>trace := trace w @
                   [(External c, case r of None \<Rightarrow> Raised | Some b \<Rightarrow> ReturnedBool b)]\<rparr>
      in case r of None \<Rightarrow> (Inl CollaboratorError, w') | Some b \<Rightarrow> (Inr b, w'))"

text \<open>
  Modelled from the spec: \<^verbatim>\<open>AwsSubnet.Delete\<close> is not among the sources. A resource's
  delete operation logs its errors and does not propagate them.
\<close>

definition subnet_Delete :: "subnet \<Rightarrow> world \<Rightarrow> world" where
  "subnet_Delete s w = w\<lparr>trace := trace w @ [(SubnetDelete s, Returned)]\<rparr>"

subsection \<open>Describing an instance and waiting for it\<close>

definition DescribeInstance :: "env \<Rightarrow> aws_db \<Rightarrow> string \<Rightarrow> world \<Rightarrow> (error + json) \<times> world" where
  "DescribeInstance env db iid w =
     (case IssueCommand env (RdsDescribeDbInstances iid (region db)) False w of
        (Inl e, w') \<Rightarrow> (Inl e, w')
      | (Inr r, w') \<Rightarrow>
          if retcode r \<noteq> 0 then (Inr JNull, w')
          else (case stdout r of None \<Rightarrow> (Inl JSONDecodeError, w') | Some j \<Rightarrow> (Inr j, w')))"

text \<open>
  The body of the \<^verbatim>\<open>try\<close> block of \<^verbatim>\<open>_IsInstanceReady\<close>: \<open>None\<close> when reading the fields
  raises, otherwise whether the loop breaks.
\<close>

definition instance_status :: "json \<Rightarrow> bool option" where
  "instance_status json_output =
     (case getitem_key json_output ''DBInstances'' of Inl _ \<Rightarrow> None | Inr insts \<Rightarrow>
     (case getitem_0 insts of Inl _ \<Rightarrow> None | Inr inst \<Rightarrow>
     (case getitem_key inst ''DBInstanceStatus'' of Inl _ \<Rightarrow> None | Inr state \<Rightarrow>
     (case getitem_key inst ''PendingModifiedValues'' of Inl _ \<Rightarrow> None | Inr pending_values \<Rightarrow>
     (case getitem_key inst ''DBParameterGroups'' of Inl _ \<Rightarrow> None | Inr groups \<Rightarrow>
     (case getitem_0 groups of Inl _ \<Rightarrow> None | Inr grp \<Rightarrow>
     (case getitem_key grp ''ParameterApplyStatus'' of Inl _ \<Rightarrow> None | Inr apply_status \<Rightarrow>
        (let waiting_param = (apply_status = JStr ''applying'')
         in Some (state = JStr ''available'' \<and> \<not> truthy pending_values \<and> \<not> waiting_param)))))))))"

text \<open>
  \<^verbatim>\<open>(datetime.datetime.now() - start_time).seconds\<close>: the seconds field of a time
  difference leaves the whole days out.
\<close>

definition timedelta_seconds :: "nat \<Rightarrow> nat \<Rightarrow> nat" where
  "timedelta_seconds now start_time = (now - start_time) mod 86400"

text \<open>
  The \<^verbatim>\<open>while True\<close> loop of \<^verbatim>\<open>_IsInstanceReady\<close>, one unit of fuel for each iteration;
  \<open>None\<close> when the fuel runs out.
\<close>

fun IsInstanceReady_loop ::
  "nat \<Rightarrow> env \<Rightarrow> aws_db \<Rightarrow> string \<Rightarrow> nat \<Rightarrow> nat \<Rightarrow> world \<Rightarrow> ((error + bool) \<times> world) option" where
  "IsInstanceReady_loop 0 env db iid timeout start_time w = None"
| "IsInstanceReady_loop (Suc fuel) env db iid timeout start_time w =
     (if timedelta_seconds (clock w) start_time \<ge> timeout then Some (Inr False, w)
      else (case DescribeInstance env db iid w of
              (Inl e, w1) \<Rightarrow> Some (Inl e, w1)
            | (Inr json_output, w1) \<Rightarrow>
                if truthy json_output then
                  (case instance_status json_output of
                     None \<Rightarrow> Some (Inr False, w1)
                   | Some ready \<Rightarrow>
                       if ready then Some (Inr True, w1)
                       else IsInstanceReady_loop fuel env db iid timeout start_time (sleep 5 w1))
                else IsInstanceReady_loop fuel env db iid timeout start_time (sleep 5 w1)))"

definition IsInstanceReady ::
  "nat \<Rightarrow> env \<Rightarrow> aws_db \<Rightarrow> string \<Rightarrow> nat \<Rightarrow> world \<Rightarrow> ((error + bool) \<times> world) option" where
  "IsInstanceReady fuel env db iid timeout w =
     IsInstanceReady_loop fuel env db iid timeout (clock w) w"

fun IsReady_loop ::
  "nat \<Rightarrow> env \<Rightarrow> aws_db \<Rightarrow> string list \<Rightarrow> nat \<Rightarrow> world \<Rightarrow> ((error + bool) \<times> world) option" where
  "IsReady_loop fuel env db [] timeout w = Some (Inr True, w)"
| "IsReady_loop fuel env db (iid # ids) timeout w =
     (case IsInstanceReady fuel env db iid timeout w of
        None \<Rightarrow> None
      | Some (Inl e, w1) \<Rightarrow> Some (Inl e, w1)
      | Some (Inr ready, w1) \<Rightarrow>
          if \<not> ready then Some (Inr False, w1) else IsReady_loop fuel env db ids timeout w1)"

definition IsReady ::
  "nat \<Rightarrow> env \<Rightarrow> aws_db \<Rightarrow> nat \<Rightarrow> world \<Rightarrow> ((error + bool) \<times> world) option" where
  "IsReady fuel env db timeout w =
     (if \<not> is_managed_db db then Some (call_external env IsReadyUnmanaged w)
      else if all_instance_ids db = [] then Some (Inr False, w)
      else IsReady_loop fuel env db (all_instance_ids db) timeout w)"

subsection \<open>Existence and deletion\<close>

fun Exists_loop :: "env \<Rightarrow> aws_db \<Rightarrow> string list \<Rightarrow> world \<Rightarrow> (error + bool option) \<times> world" where
  "Exists_loop env db [] w = (Inr (Some True), w)"
| "Exists_loop env db (iid # ids) w =
     (case DescribeInstance env db iid w of
        (Inl e, w1) \<Rightarrow> (Inl e, w1)
      | (Inr json_output, w1) \<Rightarrow>
          if \<not> truthy json_output then (Inr (Some False), w1) else Exists_loop env db ids w1)"

text \<open>\<^verbatim>\<open>_Exists\<close>; the result is a Python truth value or \<^verbatim>\<open>None\<close>.\<close>

definition Exists :: "env \<Rightarrow> aws_db \<Rightarrow> world \<Rightarrow> (error + bool option) \<times> world" where
  "Exists env db w =
     (if \<not> is_managed_db db then (Inr (unmanaged_db_exists db), w)
      else Exists_loop env db (all_instance_ids db) w)"

fun Delete_instances :: "env \<Rightarrow> aws_db \<Rightarrow> string list \<Rightarrow> world \<Rightarrow> (error + unit) \<times> world" where
  "Delete_instances env db [] w = (Inr (), w)"
| "Delete_instances env db (iid # ids) w =
     (case IssueCommand env (RdsDeleteDbInstance iid (region db)) False w of
        (Inl e, w1) \<Rightarrow> (Inl e, w1)
      | (Inr _, w1) \<Rightarrow> Delete_instances env db ids w1)"

text \<open>\<^verbatim>\<open>_Delete\<close>.\<close>

definition Delete :: "env \<Rightarrow> aws_db \<Rightarrow> world \<Rightarrow> (error + unit) \<times> aws_db \<times> world" where
  "Delete env db w =
     (if \<not> is_managed_db db then
        (case (if has_firewall db then call_external env DisallowAllPorts w else (Inr True, w)) of
           (Inl e, w1) \<Rightarrow> (Inl e, db, w1)
         | (Inr _, w1) \<Rightarrow>
             (let db1 = db\<lparr>unmanaged_db_exists := Some False\<rparr>
              in case call_external env PrintUnmanagedDbStats w1 of
                   (Inl e, w2) \<Rightarrow> (Inl e, db1, w2)
                 | (Inr _, w2) \<Rightarrow> (Inr (), db1, w2)))
      else
        (case Delete_instances env db (all_instance_ids db) w of
           (Inl e, w1) \<Rightarrow> (Inl e, db, w1)
         | (Inr _, w1) \<Rightarrow>
             (case cluster_id db of
                None \<Rightarrow> (Inr (), db, w1)
              | Some cid \<Rightarrow>
                  (case IssueCommand env (RdsDeleteDbCluster cid (region db)) False w1 of
                     (Inl e, w2) \<Rightarrow> (Inl e, db, w2)
                   | (Inr _, w2) \<Rightarrow> (Inr (), db, w2)))))"

subsection \<open>Networking: subnets, the subnet group and the ingress rule\<close>

text \<open>
  \<^verbatim>\<open>all_zones.remove(zone)\<close> for each of the database's zones: \<open>None\<close> when a zone is
  not in the list (Python raises). \<^verbatim>\<open>util.GetZonesInRegion\<close> is not among the sources; its
  result is taken as a list, and the environment gives it.
\<close>

fun remove_zones :: "string list \<Rightarrow> string list \<Rightarrow> string list option" where
  "remove_zones [] all_zones = Some all_zones"
| "remove_zones (z # zs) all_zones =
     (if z \<in> set all_zones then remove_zones zs (remove1 z all_zones) else None)"

definition GetNewZones :: "env \<Rightarrow> aws_db \<Rightarrow> world \<Rightarrow> (error + string list) \<times> world" where
  "GetNewZones env db w =
     (let r = zones_in_region env (trace w) (region db);
          w' = w\<lparr>trace := trace w @
                   [(GetZonesInRegion (region db),
                     case r of None \<Rightarrow> Raised | Some zs \<Rightarrow> ReturnedZones zs)]\<rparr>
      in case r of
           None \<Rightarrow> (Inl CollaboratorError, w')
         | Some all_zones \<Rightarrow>
             (case remove_zones (zones db) all_zones of
                None \<Rightarrow> (Inl ValueError, w')
              | Some zs \<Rightarrow> (Inr zs, w')))"

text \<open>
  \<^verbatim>\<open>_CreateSubnetInZone\<close>. Taking the next CIDR block, constructing the subnet object and
  its \<^verbatim>\<open>Create()\<close> are one call of the environment (\<^verbatim>\<open>AwsSubnet\<close> is not among the
  sources), which raises or returns; the new object gets a fresh reference.
\<close>

definition CreateSubnetInZone ::
  "env \<Rightarrow> string \<Rightarrow> aws_db \<Rightarrow> world \<Rightarrow> (error + subnet) \<times> aws_db \<times> world" where
  "CreateSubnetInZone env new_subnet_zone db w =
     (let new_subnet = AwsSubnet (next_ref w) new_subnet_zone;
          ok = subnet_create env (trace w) new_subnet;
          w' = w\<lparr>trace := trace w @ [(SubnetCreate new_subnet, if ok then Returned else Raised)],
                 next_ref := Suc (next_ref w)\<rparr>
      in if \<not> ok then (Inl CollaboratorError, db, w')
         else (Inr new_subnet,
               db\<lparr>subnets_used_by_db := subnets_used_by_db db @ [new_subnet],
                  subnets_owned_by_db := subnets_owned_by_db db @ [new_subnet]\<rparr>,
               w'))"

fun CreateSubnetInAllZones_loop ::
  "env \<Rightarrow> string list \<Rightarrow> aws_db \<Rightarrow> world \<Rightarrow> (error + unit) \<times> aws_db \<times> world" where
  "CreateSubnetInAllZones_loop env [] db w = (Inr (), db, w)"
| "CreateSubnetInAllZones_loop env (z # zs) db w =
     (if z \<noteq> subnet_zone (client_subnet db) then
        (case CreateSubnetInZone env z db w of
           (Inl e, db1, w1) \<Rightarrow> (Inl e, db1, w1)
         | (Inr _, db1, w1) \<Rightarrow> CreateSubnetInAllZones_loop env zs db1 w1)
      else CreateSubnetInAllZones_loop env zs
             (db\<lparr>subnets_used_by_db := subnets_used_by_db db @ [client_subnet db]\<rparr>) w)"

definition CreateSubnetInAllZonesAssumeClientZoneExists ::
  "env \<Rightarrow> aws_db \<Rightarrow> world \<Rightarrow> (error + unit) \<times> aws_db \<times> world" where
  "CreateSubnetInAllZonesAssumeClientZoneExists env db w =
     CreateSubnetInAllZones_loop env (zones db) db w"

text \<open>
  The \<^verbatim>\<open>while\<close> loop of \<^verbatim>\<open>_CreateSubnetInAdditionalZone\<close> over the zones in the order
  \<^verbatim>\<open>pop()\<close> takes them (last first); the bare \<^verbatim>\<open>except\<close> swallows every failure.
\<close>

fun CreateSubnetInAdditionalZone_loop ::
  "env \<Rightarrow> string list \<Rightarrow> aws_db \<Rightarrow> world \<Rightarrow> (error + subnet) \<times> aws_db \<times> world" where
  "CreateSubnetInAdditionalZone_loop env [] db w =
     (Inl (Exception ''Unable to create subnet in any availability zones''), db, w)"
| "CreateSubnetInAdditionalZone_loop env (z # zs) db w =
     (case CreateSubnetInZone env z db w of
        (Inr new_subnet, db1, w1) \<Rightarrow> (Inr new_subnet, db1, w1)
      | (Inl _, db1, w1) \<Rightarrow> CreateSubnetInAdditionalZone_loop env zs db1 w1)"

definition CreateSubnetInAdditionalZone ::
  "env \<Rightarrow> aws_db \<Rightarrow> world \<Rightarrow> (error + subnet) \<times> aws_db \<times> world" where
  "CreateSubnetInAdditionalZone env db w =
     (case GetNewZones env db w of
        (Inl e, w1) \<Rightarrow> (Inl e, db, w1)
      | (Inr new_subnet_zones, w1) \<Rightarrow>
          CreateSubnetInAdditionalZone_loop env (rev new_subnet_zones) db w1)"

definition CreateDbSubnetGroup ::
  "env \<Rightarrow> subnet list \<Rightarrow> aws_db \<Rightarrow> world \<Rightarrow> (error + unit) \<times> aws_db \<times> world" where
  "CreateDbSubnetGroup env subnets db w =
     (let name = ''pkb-db-subnet-group-'' @ run_uri db in
      case IssueCommand env (RdsCreateDbSubnetGroup name subnets (region db))
             (raise_on_failure_default env) w of
        (Inl e, w1) \<Rightarrow> (Inl e, db, w1)
      | (Inr _, w1) \<Rightarrow>
          (Inr (),
           db\<lparr>db_subnet_group_name := Some name,
              security_group_id := Some (vpc_default_security_group_id db)\<rparr>,
           w1))"

text \<open>The first statement of \<^verbatim>\<open>_SetupNetworking\<close>: the subnets, by engine.\<close>

definition SetupNetworking_subnets ::
  "env \<Rightarrow> aws_db \<Rightarrow> world \<Rightarrow> (error + unit) \<times> aws_db \<times> world" where
  "SetupNetworking_subnets env db w =
     (if engine db \<in> set RDS_ENGINES then
        (case CreateSubnetInAdditionalZone env
                (db\<lparr>subnets_used_by_db := subnets_used_by_db db @ [client_subnet db]\<rparr>) w of
           (Inl e, db1, w1) \<Rightarrow> (Inl e, db1, w1)
         | (Inr _, db1, w1) \<Rightarrow> (Inr (), db1, w1))
      else if engine db \<in> set AURORA_ENGINES then
        CreateSubnetInAllZonesAssumeClientZoneExists env db w
      else (Inl (Exception ''Unknown how to create network''), db, w))"

definition SetupNetworking :: "env \<Rightarrow> aws_db \<Rightarrow> world \<Rightarrow> (error + unit) \<times> aws_db \<times> world" where
  "SetupNetworking env db w =
     (case SetupNetworking_subnets env db w of
        (Inl e, db1, w1) \<Rightarrow> (Inl e, db1, w1)
      | (Inr _, db1, w1) \<Rightarrow>
          (case CreateDbSubnetGroup env (subnets_used_by_db db1) db1 w1 of
             (Inl e, db2, w2) \<Rightarrow> (Inl e, db2, w2)
           | (Inr _, db2, w2) \<Rightarrow>
               (case IssueCommand env
                       (Ec2AuthorizeSecurityGroupIngress (security_group_id db2) DEFAULT_POSTGRES_PORT
                          (region db2))
                       (raise_on_failure_default env) w2 of
                  (Inl e, w3) \<Rightarrow> (Inl e, db2, w3)
                | (Inr _, w3) \<Rightarrow> (Inr (), db2, w3))))"

fun Delete_subnets :: "subnet list \<Rightarrow> world \<Rightarrow> world" where
  "Delete_subnets [] w = w"
| "Delete_subnets (subnet_for_db # rest) w = Delete_subnets rest (subnet_Delete subnet_for_db w)"

text \<open>
  \<^verbatim>\<open>_TeardownNetworking\<close>. \<^verbatim>\<open>__init__\<close> sets the attribute \<^verbatim>\<open>db_subnet_group_name\<close>, so the
  \<^verbatim>\<open>hasattr\<close> test is true of every object.
\<close>

definition TeardownNetworking :: "env \<Rightarrow> aws_db \<Rightarrow> world \<Rightarrow> (error + unit) \<times> aws_db \<times> world" where
  "TeardownNetworking env db w =
     (case IssueCommand env (RdsDeleteDbSubnetGroup (db_subnet_group_name db) (region db)) False w of
        (Inl e, w1) \<Rightarrow> (Inl e, db, w1)
      | (Inr _, w1) \<Rightarrow> (Inr (), db, Delete_subnets (subnets_owned_by_db db) w1))"

definition TeardownParameterGroup ::
  "env \<Rightarrow> aws_db \<Rightarrow> world \<Rightarrow> (error + unit) \<times> aws_db \<times> world" where
  "TeardownParameterGroup env db w =
     (case parameter_group db of
        None \<Rightarrow> (Inr (), db, w)
      | Some pg \<Rightarrow>
          if pg = [] then (Inr (), db, w)
          else (case IssueCommand env (RdsDeleteDbParameterGroup pg (region db)) False w of
                  (Inl e, w1) \<Rightarrow> (Inl e, db, w1)
                | (Inr _, w1) \<Rightarrow> (Inr (), db, w1)))"

subsection \<open>Creation\<close>

fun CreateAurora_instances ::
  "env \<Rightarrow> string \<Rightarrow> string list \<Rightarrow> aws_db \<Rightarrow> world \<Rightarrow> (error + unit) \<times> aws_db \<times> world" where
  "CreateAurora_instances env cluster_identifier [] db w = (Inr (), db, w)"
| "CreateAurora_instances env cluster_identifier (z # zs) db w =
     (let instance_identifier =
            (if z = hd (zones db) then instance_id db else instance_id db @ ''-'' @ z);
          db1 = db\<lparr>all_instance_ids := all_instance_ids db @ [instance_identifier]\<rparr>
      in case IssueCommand env
                (RdsCreateDbInstance instance_identifier (Some cluster_identifier) z (region db))
                (raise_on_failure_default env) w of
           (Inl e, w1) \<Rightarrow> (Inl e, db1, w1)
         | (Inr _, w1) \<Rightarrow> CreateAurora_instances env cluster_identifier zs db1 w1)"

text \<open>
  \<^verbatim>\<open>_CreateAwsSqlInstance\<close>. The cluster command reads \<^verbatim>\<open>self.spec.zones[0]\<close> while it is
  built, before \<^verbatim>\<open>cluster_id\<close> is assigned. In the loop \<^verbatim>\<open>self.zones[0]\<close> is read only
  when \<^verbatim>\<open>self.zones\<close> has an element.
\<close>

definition CreateAwsSqlInstance ::
  "env \<Rightarrow> aws_db \<Rightarrow> world \<Rightarrow> (error + unit) \<times> aws_db \<times> world" where
  "CreateAwsSqlInstance env db w =
     (if engine db \<in> set RDS_ENGINES then
        (let instance_identifier = instance_id db;
             db1 = db\<lparr>all_instance_ids := all_instance_ids db @ [instance_identifier]\<rparr>
         in case IssueCommand env
                   (RdsCreateDbInstance instance_identifier None (db_spec_zone db) (region db))
                   (raise_on_failure_default env) w of
              (Inl e, w1) \<Rightarrow> (Inl e, db1, w1)
            | (Inr _, w1) \<Rightarrow> (Inr (), db1, w1))
      else if engine db \<in> set AURORA_ENGINES then
        (let zones_needed_for_high_availability = (length (zones db) > 1) in
         if zones_needed_for_high_availability \<noteq> high_availability db
         then (Inl (Exception ''When db_high_availability is true, multiple zones must be specified''),
               db, w)
         else
           (let cluster_identifier = ''pkb-db-cluster-'' @ run_uri db in
            case spec_zones db of
              None \<Rightarrow> (Inl TypeError, db, w)
            | Some [] \<Rightarrow> (Inl IndexError, db, w)
            | Some (z0 # _) \<Rightarrow>
                (let db1 = db\<lparr>cluster_id := Some cluster_identifier\<rparr> in
                 case IssueCommand env (RdsCreateDbCluster cluster_identifier (region db))
                        (raise_on_failure_default env) w of
                   (Inl e, w1) \<Rightarrow> (Inl e, db1, w1)
                 | (Inr _, w1) \<Rightarrow>
                     CreateAurora_instances env cluster_identifier (zones db1) db1 w1)))
      else (Inl (Exception ''Unknown how to create AWS data base engine''), db, w))"

subsection \<open>The default port\<close>

definition GetDefaultPort :: "aws_db \<Rightarrow> error + int" where
  "GetDefaultPort db =
     (if engine db = MYSQL then Inr DEFAULT_MYSQL_PORT
      else if engine db = POSTGRES then Inr DEFAULT_POSTGRES_PORT
      else if engine db = SQLSERVER then Inr DEFAULT_SQLSERVER_PORT
      else Inl RelationalDbEngineNotFoundError)"

text \<open>
  \<^verbatim>\<open>_Create\<close>. For an unmanaged database the firewall attribute is assigned before the
  arguments of \<^verbatim>\<open>AllowPortInSecurityGroup\<close>, among them \<^verbatim>\<open>self.GetDefaultPort()\<close>, are
  evaluated.
\<close>

definition Create :: "env \<Rightarrow> aws_db \<Rightarrow> world \<Rightarrow> (error + unit) \<times> aws_db \<times> world" where
  "Create env db w =
     (if is_managed_db db then CreateAwsSqlInstance env db w
      else
        (let db1 = db\<lparr>endpoint := Some (JStr (server_ip_address db))\<rparr> in
         case call_external env SetupUnmanagedDatabase w of
           (Inl e, w1) \<Rightarrow> (Inl e, db1, w1)
         | (Inr _, w1) \<Rightarrow>
             (let db2 = db1\<lparr>has_firewall := True\<rparr> in
              case GetDefaultPort db2 of
                Inl e \<Rightarrow> (Inl e, db2, w1)
              | Inr p \<Rightarrow>
                  (case call_external env (AllowPortInSecurityGroup p) w1 of
                     (Inl e, w2) \<Rightarrow> (Inl e, db2, w2)
                   | (Inr _, w2) \<Rightarrow> (Inr (), db2\<lparr>unmanaged_db_exists := Some True\<rparr>, w2)))))"

subsection \<open>After creation: high availability, zones, endpoint and port\<close>

fun join :: "string \<Rightarrow> string list \<Rightarrow> string" where
  "join sep [] = []"
| "join sep [x] = x"
| "join sep (x # y # ys) = x @ sep @ join sep (y # ys)"

text \<open>
  \<^verbatim>\<open>_SavePrimaryAndSecondaryZones\<close>; the object is returned also when the method raises,
  with the attributes assigned before the exception.
\<close>

definition SavePrimaryAndSecondaryZones :: "json \<Rightarrow> aws_db \<Rightarrow> (error + unit) \<times> aws_db" where
  "SavePrimaryAndSecondaryZones describe_instance_json db =
     (if engine db \<in> set AURORA_ENGINES then
        (case zones db of
           [] \<Rightarrow> (Inl IndexError, db)
         | z0 # rest \<Rightarrow>
             (let db1 = db\<lparr>primary_zone := Some (JStr z0)\<rparr>
              in if length (zones db) > 1
                 then (Inr (), db1\<lparr>secondary_zone := Some (JStr (join '','' rest))\<rparr>)
                 else (Inr (), db1)))
      else
        (case getitem_key describe_instance_json ''DBInstances'' of
           Inl e \<Rightarrow> (Inl e, db)
         | Inr insts \<Rightarrow>
             (case getitem_0 insts of
                Inl e \<Rightarrow> (Inl e, db)
              | Inr db_instance \<Rightarrow>
                  (case getitem_key db_instance ''AvailabilityZone'' of
                     Inl e \<Rightarrow> (Inl e, db)
                   | Inr az \<Rightarrow>
                       (let db1 = db\<lparr>primary_zone := Some az\<rparr>
                        in if high_availability db then
                             (case getitem_key db_instance ''SecondaryAvailabilityZone'' of
                                Inr saz \<Rightarrow> (Inr (), db1\<lparr>secondary_zone := Some saz\<rparr>)
                              | Inl _ \<Rightarrow>
                                  (case subnets_used_by_db db of
                                     _ # s1 # _ \<Rightarrow>
                                       (Inr (), db1\<lparr>secondary_zone := Some (JStr (subnet_zone s1))\<rparr>)
                                   | _ \<Rightarrow> (Inl IndexError, db1)))
                           else (Inr (), db1))))))"

definition ParseEndpointFromInstance :: "json \<Rightarrow> error + json" where
  "ParseEndpointFromInstance j =
     (case getitem_key j ''DBInstances'' of Inl e \<Rightarrow> Inl e | Inr a \<Rightarrow>
       (case getitem_0 a of Inl e \<Rightarrow> Inl e | Inr i \<Rightarrow>
         (case getitem_key i ''Endpoint'' of Inl e \<Rightarrow> Inl e | Inr ep \<Rightarrow>
            getitem_key ep ''Address'')))"

text \<open>
  Python's \<^verbatim>\<open>int(x)\<close> is the environment's \<open>py_int\<close>; \<open>None\<close> when it raises.
\<close>

definition ParsePortFromInstance :: "env \<Rightarrow> json \<Rightarrow> error + int option" where
  "ParsePortFromInstance env j =
     (if j = JNull then Inr None
      else
       (case getitem_key j ''DBInstances'' of Inl e \<Rightarrow> Inl e | Inr a \<Rightarrow>
         (case getitem_0 a of Inl e \<Rightarrow> Inl e | Inr i \<Rightarrow>
           (case getitem_key i ''Endpoint'' of Inl e \<Rightarrow> Inl e | Inr ep \<Rightarrow>
             (case getitem_key ep ''Port'' of Inl e \<Rightarrow> Inl e | Inr p \<Rightarrow>
               (case py_int env p of None \<Rightarrow> Inl ValueError | Some n \<Rightarrow> Inr (Some n)))))))"

definition ParseEndpointFromCluster :: "json \<Rightarrow> error + json" where
  "ParseEndpointFromCluster j =
     (case getitem_key j ''DBClusters'' of Inl e \<Rightarrow> Inl e | Inr a \<Rightarrow>
       (case getitem_0 a of Inl e \<Rightarrow> Inl e | Inr c \<Rightarrow> getitem_key c ''Endpoint''))"

definition ParsePortFromCluster :: "env \<Rightarrow> json \<Rightarrow> error + int option" where
  "ParsePortFromCluster env j =
     (if j = JNull then Inr None
      else
       (case getitem_key j ''DBClusters'' of Inl e \<Rightarrow> Inl e | Inr a \<Rightarrow>
         (case getitem_0 a of Inl e \<Rightarrow> Inl e | Inr c \<Rightarrow>
           (case getitem_key c ''Port'' of Inl e \<Rightarrow> Inl e | Inr p \<Rightarrow>
             (case py_int env p of None \<Rightarrow> Inl ValueError | Some n \<Rightarrow> Inr (Some n))))))"

definition DescribeCluster :: "env \<Rightarrow> aws_db \<Rightarrow> string \<Rightarrow> world \<Rightarrow> (error + json) \<times> world" where
  "DescribeCluster env db cid w =
     (case IssueCommand env (RdsDescribeDbClusters cid (region db)) (raise_on_failure_default env) w of
        (Inl e, w') \<Rightarrow> (Inl e, w')
      | (Inr r, w') \<Rightarrow>
          (case stdout r of None \<Rightarrow> (Inl JSONDecodeError, w') | Some j \<Rightarrow> (Inr j, w')))"

definition GetPortsForWriterInstance ::
  "env \<Rightarrow> string \<Rightarrow> aws_db \<Rightarrow> world \<Rightarrow> (error + unit) \<times> aws_db \<times> world" where
  "GetPortsForWriterInstance env iid db w =
     (case DescribeInstance env db iid w of
        (Inl e, w1) \<Rightarrow> (Inl e, db, w1)
      | (Inr json_output, w1) \<Rightarrow>
          (case ParseEndpointFromInstance json_output of
             Inl e \<Rightarrow> (Inl e, db, w1)
           | Inr ep \<Rightarrow>
               (let db1 = db\<lparr>endpoint := Some ep\<rparr> in
                case ParsePortFromInstance env json_output of
                  Inl e \<Rightarrow> (Inl e, db1, w1)
                | Inr p \<Rightarrow> (Inr (), db1\<lparr>port := p\<rparr>, w1))))"

definition GetPortsForClusterInstance ::
  "env \<Rightarrow> string \<Rightarrow> aws_db \<Rightarrow> world \<Rightarrow> (error + unit) \<times> aws_db \<times> world" where
  "GetPortsForClusterInstance env cid db w =
     (case DescribeCluster env db cid w of
        (Inl e, w1) \<Rightarrow> (Inl e, db, w1)
      | (Inr json_output, w1) \<Rightarrow>
          (case ParseEndpointFromCluster json_output of
             Inl e \<Rightarrow> (Inl e, db, w1)
           | Inr ep \<Rightarrow>
               (let db1 = db\<lparr>endpoint := Some ep\<rparr> in
                case ParsePortFromCluster env json_output of
                  Inl e \<Rightarrow> (Inl e, db1, w1)
                | Inr p \<Rightarrow> (Inr (), db1\<lparr>port := p\<rparr>, w1))))"

text \<open>
  The part of \<^verbatim>\<open>_PostCreate\<close> for a managed database after the high-availability step:
  describe the instance, save the zones, read endpoint and port, install the packages.
\<close>

definition PostCreate_finish ::
  "env \<Rightarrow> aws_db \<Rightarrow> world \<Rightarrow> (error + unit) \<times> aws_db \<times> world" where
  "PostCreate_finish env db w =
     (case DescribeInstance env db (instance_id db) w of
        (Inl e, w1) \<Rightarrow> (Inl e, db, w1)
      | (Inr json_output, w1) \<Rightarrow>
          (case SavePrimaryAndSecondaryZones json_output db of
             (Inl e, db1) \<Rightarrow> (Inl e, db1, w1)
           | (Inr _, db1) \<Rightarrow>
               (case (if (case cluster_id db1 of None \<Rightarrow> False | Some c \<Rightarrow> c \<noteq> [])
                      then GetPortsForClusterInstance env (str_of (cluster_id db1)) db1 w1
                      else (case all_instance_ids db1 of
                              [] \<Rightarrow> (Inl IndexError, db1, w1)
                            | i0 # _ \<Rightarrow> GetPortsForWriterInstance env i0 db1 w1)) of
                  (Inl e, db2, w2) \<Rightarrow> (Inl e, db2, w2)
                | (Inr _, db2, w2) \<Rightarrow>
                    (case call_external env InstallPackages w2 of
                       (Inl e, w3) \<Rightarrow> (Inl e, db2, w3)
                     | (Inr _, w3) \<Rightarrow> (Inr (), db2, w3)))))"

text \<open>
  \<^verbatim>\<open>_PostCreate\<close>; the fuel is that of the readiness wait, \<open>None\<close> when it runs out.
  \<^verbatim>\<open>super()._PostCreate()\<close> and \<^verbatim>\<open>InstallPackages\<close> are calls of the environment.
\<close>

definition PostCreate ::
  "nat \<Rightarrow> env \<Rightarrow> aws_db \<Rightarrow> world \<Rightarrow> ((error + unit) \<times> aws_db \<times> world) option" where
  "PostCreate fuel env db w =
     (case call_external env BasePostCreate w of
        (Inl e, w0) \<Rightarrow> Some (Inl e, db, w0)
      | (Inr _, w0) \<Rightarrow>
          if \<not> is_managed_db db then
            (case GetDefaultPort db of
               Inl e \<Rightarrow> Some (Inl e, db, w0)
             | Inr p \<Rightarrow>
                 (let db1 = db\<lparr>port := Some p\<rparr> in
                  case call_external env InstallPackages w0 of
                    (Inl e, w1) \<Rightarrow> Some (Inl e, db1, w1)
                  | (Inr _, w1) \<Rightarrow>
                      (case call_external env InstallPackages w1 of
                         (Inl e, w2) \<Rightarrow> Some (Inl e, db1, w2)
                       | (Inr _, w2) \<Rightarrow> Some (Inr (), db1, w2))))
          else
            (let need_ha_modification = (engine db \<in> set RDS_ENGINES) in
             if high_availability db \<and> need_ha_modification then
               (case IssueCommand env (RdsModifyDbInstance (instance_id db) (region db))
                       (raise_on_failure_default env) w0 of
                  (Inl e, w1) \<Rightarrow> Some (Inl e, db, w1)
                | (Inr _, w1) \<Rightarrow>
                    (case IsInstanceReady fuel env db (instance_id db) IS_READY_TIMEOUT w1 of
                       None \<Rightarrow> None
                     | Some (Inl e, w2) \<Rightarrow> Some (Inl e, db, w2)
                     | Some (Inr ready, w2) \<Rightarrow>
                         if \<not> ready
                         then Some (Inl (Exception
                                ''Instance could not be set to ready after modification for high availability''),
                                db, w2)
                         else Some (PostCreate_finish env db w2)))
             else Some (PostCreate_finish env db w0)))"

subsection \<open>Dependencies and failover\<close>

definition AssertClientAndDbInSameRegion :: "aws_db \<Rightarrow> error + unit" where
  "AssertClientAndDbInSameRegion db =
     (if client_region db \<noteq> region db then Inl AwsRelationalDbCrossRegionError else Inr ())"

definition CreateDependencies ::
  "env \<Rightarrow> aws_db \<Rightarrow> world \<Rightarrow> (error + unit) \<times> aws_db \<times> world" where
  "CreateDependencies env db w =
     (if is_managed_db db then
        (case AssertClientAndDbInSameRegion db of
           Inl e \<Rightarrow> (Inl e, db, w)
         | Inr _ \<Rightarrow> SetupNetworking env db w)
      else (Inr (), db, w))"

definition DeleteDependencies ::
  "env \<Rightarrow> aws_db \<Rightarrow> world \<Rightarrow> (error + unit) \<times> aws_db \<times> world" where
  "DeleteDependencies env db w =
     (if is_managed_db db then
        (case TeardownNetworking env db w of
           (Inl e, db1, w1) \<Rightarrow> (Inl e, db1, w1)
         | (Inr _, db1, w1) \<Rightarrow> TeardownParameterGroup env db1 w1)
      else (Inr (), db, w))"

definition FailoverHA :: "env \<Rightarrow> aws_db \<Rightarrow> world \<Rightarrow> (error + unit) \<times> aws_db \<times> world" where
  "FailoverHA env db w =
     (if engine db \<in> set RDS_ENGINES then
        (case IssueCommand env (RdsRebootDbInstance (instance_id db) (region db))
                (raise_on_failure_default env) w of
           (Inl e, w1) \<Rightarrow> (Inl e, db, w1)
         | (Inr _, w1) \<Rightarrow> (Inr (), db, w1))
      else if engine db \<in> set AURORA_ENGINES then
        (case all_instance_ids db of
           _ # new_primary_id # _ \<Rightarrow>
             (case IssueCommand env
                     (RdsFailoverDbCluster (str_of (cluster_id db)) new_primary_id (region db))
                     (raise_on_failure_default env) w of
                (Inl e, w1) \<Rightarrow> (Inl e, db, w1)
              | (Inr _, w1) \<Rightarrow> (Inr (), db, w1))
         | _ \<Rightarrow> (Inl IndexError, db, w))
      else (Inl (Exception ''Unknown how to failover''), db, w))"

subsection \<open>The resource's create and delete operations\<close>

text \<open>
  Modelled from the spec: the base class \<^verbatim>\<open>BaseResource\<close>, whose \<^verbatim>\<open>Create\<close> and
  \<^verbatim>\<open>Delete\<close> call the methods above, is not among the sources. Dependencies are created
  before the resource that needs them (\<^verbatim>\<open>_CreateDependencies\<close> is called once before the
  resource is created) and deleted only after it (\<^verbatim>\<open>_DeleteDependencies\<close> is called once
  after the resource is deleted); an exception ends the operation.
\<close>

definition Resource_Create :: "env \<Rightarrow> aws_db \<Rightarrow> world \<Rightarrow> (error + unit) \<times> aws_db \<times> world" where
  "Resource_Create env db w =
     (case CreateDependencies env db w of
        (Inl e, db1, w1) \<Rightarrow> (Inl e, db1, w1)
      | (Inr _, db1, w1) \<Rightarrow> Create env db1 w1)"

definition Resource_Delete :: "env \<Rightarrow> aws_db \<Rightarrow> world \<Rightarrow> (error + unit) \<times> aws_db \<times> world" where
  "Resource_Delete env db w =
     (case Delete env db w of
        (Inl e, db1, w1) \<Rightarrow> (Inl e, db1, w1)
      | (Inr _, db1, w1) \<Rightarrow> DeleteDependencies env db1 w1)"

subsection \<open>Reading the trace\<close>

definition calls :: "world \<Rightarrow> call list" where
  "calls w = map fst (trace w)"

text \<open>The subnets whose creation returned normally, and the subnets deleted, oldest first.\<close>

definition created_subnets :: "event list \<Rightarrow> subnet list" where
  "created_subnets tr =
     concat (map (\<lambda>e. case e of (SubnetCreate s, Returned) \<Rightarrow> [s] | _ \<Rightarrow> []) tr)"

definition deleted_subnets :: "event list \<Rightarrow> subnet list" where
  "deleted_subnets tr = concat (map (\<lambda>e. case e of (SubnetDelete s, _) \<Rightarrow> [s] | _ \<Rightarrow> []) tr)"

text \<open>
  The calls \<^verbatim>\<open>_Delete\<close> makes for a managed database, then the calls
  \<^verbatim>\<open>_DeleteDependencies\<close> makes, and the two calls of one pass of the readiness loop.
\<close>

definition Delete_calls :: "aws_db \<Rightarrow> call list" where
  "Delete_calls db =
     map (\<lambda>i. Command (RdsDeleteDbInstance i (region db)) False) (all_instance_ids db) @
     (case cluster_id db of None \<Rightarrow> [] | Some cid \<Rightarrow> [Command (RdsDeleteDbCluster cid (region db)) False])"

definition Teardown_calls :: "aws_db \<Rightarrow> call list" where
  "Teardown_calls db =
     [Command (RdsDeleteDbSubnetGroup (db_subnet_group_name db) (region db)) False] @
     map SubnetDelete (subnets_owned_by_db db) @
     (case parameter_group db of
        None \<Rightarrow> []
      | Some pg \<Rightarrow> if pg = [] then [] else [Command (RdsDeleteDbParameterGroup pg (region db)) False])"

definition poll_calls :: "aws_db \<Rightarrow> string \<Rightarrow> call list" where
  "poll_calls db iid = [Command (RdsDescribeDbInstances iid (region db)) False, Sleep 5]"

text \<open>
  Kinds of calls: those that set up networking, those that create the database, and
  those that delete it.
\<close>

fun is_setup_call :: "call \<Rightarrow> bool" where
  "is_setup_call (SubnetCreate s) = True"
| "is_setup_call (GetZonesInRegion r) = True"
| "is_setup_call (Command (RdsCreateDbSubnetGroup n ss r) f) = True"
| "is_setup_call (Command (Ec2AuthorizeSecurityGroupIngress g p r) f) = True"
| "is_setup_call c = False"

fun is_create_call :: "call \<Rightarrow> bool" where
  "is_create_call (Command (RdsCreateDbInstance i c z r) f) = True"
| "is_create_call (Command (RdsCreateDbCluster c r) f) = True"
| "is_create_call (External SetupUnmanagedDatabase) = True"
| "is_create_call (External (AllowPortInSecurityGroup p)) = True"
| "is_create_call c = False"

fun is_delete_call :: "call \<Rightarrow> bool" where
  "is_delete_call (Command (RdsDeleteDbInstance i r) f) = True"
| "is_delete_call (Command (RdsDeleteDbCluster c r) f) = True"
| "is_delete_call (External DisallowAllPorts) = True"
| "is_delete_call (External PrintUnmanagedDbStats) = True"
| "is_delete_call c = False"

text \<open>Between two worlds only calls of one kind were made.\<close>

definition appends :: "(call \<Rightarrow> bool) \<Rightarrow> world \<Rightarrow> world \<Rightarrow> bool" where
  "appends P w w' = (\<exists>es. trace w' = trace w @ es \<and> list_all (\<lambda>e. P (fst e)) es)"

text \<open>
  The subnet bookkeeping between two points of an execution: the owned list grew by
  exactly the subnets created in between, all of them new objects, nothing was deleted,
  and the used list only grew.
\<close>

definition owns_step :: "aws_db \<Rightarrow> world \<Rightarrow> aws_db \<Rightarrow> world \<Rightarrow> bool" where
  "owns_step db w db' w' =
     (\<exists>new. subnets_owned_by_db db' = subnets_owned_by_db db @ new \<and>
            created_subnets (trace w') = created_subnets (trace w) @ new \<and>
            list_all (\<lambda>s. next_ref w \<le> subnet_ref s) new \<and>
            deleted_subnets (trace w') = deleted_subnets (trace w) \<and>
            next_ref w \<le> next_ref w' \<and>
            client_subnet db' = client_subnet db \<and>
            is_managed_db db' = is_managed_db db \<and>
            set (subnets_used_by_db db) \<subseteq> set (subnets_used_by_db db'))"

text \<open>
  The four hooks in the order of the lifecycle, each run whatever the one before
  returned; the result is the object after the dependencies were created, and the
  object and the world at the end.
\<close>

definition hooks_in_order :: "env \<Rightarrow> aws_db \<Rightarrow> world \<Rightarrow> aws_db \<times> aws_db \<times> world" where
  "hooks_in_order env db w =
     (case CreateDependencies env db w of (r1, db1, w1) \<Rightarrow>
      (case Create env db1 w1 of (r2, db2, w2) \<Rightarrow>
       (case Delete env db2 w2 of (r3, db3, w3) \<Rightarrow>
        (case DeleteDependencies env db3 w3 of (r4, db4, w4) \<Rightarrow> (db1, db4, w4)))))"

subsection \<open>Reading a readiness wait\<close>

text \<open>
  How one pass of the loop of \<^verbatim>\<open>_IsInstanceReady\<close> reads the result of the describe
  command: the instance is ready, it is not, there is no answer (a non-zero exit, or a
  document that is false in Python), the document lacks a field the loop reads, or the
  output is not JSON.
\<close>

datatype poll_result = Ready | NotReady | NoAnswer | Unreadable | NotJson

definition poll_result_of :: "cmd_result \<Rightarrow> poll_result" where
  "poll_result_of r =
     (if retcode r \<noteq> 0 then NoAnswer
      else case stdout r of
             None \<Rightarrow> NotJson
           | Some j \<Rightarrow>
               if \<not> truthy j then NoAnswer
               else (case instance_status j of
                       None \<Rightarrow> Unreadable
                     | Some ready \<Rightarrow> if ready then Ready else NotReady))"

definition poll_at :: "env \<Rightarrow> aws_db \<Rightarrow> string \<Rightarrow> world \<Rightarrow> poll_result" where
  "poll_at env db iid w = poll_result_of (issue env (trace w) (RdsDescribeDbInstances iid (region db)))"

text \<open>
  The world after the describe command of a pass, and the world after \<open>k\<close> passes that
  each ended in the sleep.
\<close>

definition described :: "env \<Rightarrow> aws_db \<Rightarrow> string \<Rightarrow> world \<Rightarrow> world" where
  "described env db iid w = snd (DescribeInstance env db iid w)"

fun after_polls :: "nat \<Rightarrow> env \<Rightarrow> aws_db \<Rightarrow> string \<Rightarrow> world \<Rightarrow> world" where
  "after_polls 0 env db iid w = w"
| "after_polls (Suc k) env db iid w = after_polls k env db iid (sleep 5 (described env db iid w))"

text \<open>
  The first \<open>k\<close> passes of a wait that started at \<open>start\<close> all found the deadline not
  reached and the instance not ready.
\<close>

definition keeps_waiting :: "nat \<Rightarrow> nat \<Rightarrow> nat \<Rightarrow> env \<Rightarrow> aws_db \<Rightarrow> string \<Rightarrow> world \<Rightarrow> bool" where
  "keeps_waiting k timeout start env db iid w =
     (\<forall>i<k. timedelta_seconds (clock (after_polls i env db iid w)) start < timeout \<and>
            poll_at env db iid (after_polls i env db iid w) \<in> {NotReady, NoAnswer})"

subsection \<open>Example objects, documents and environments\<close>

definition world0 :: world where
  "world0 = \<lparr>trace = [], clock = 0, next_ref = 1\<rparr>"

text \<open>
  Results of the executor: a failure, and a success whose output is a JSON document.
\<close>

definition failed_result :: cmd_result where
  "failed_result = \<lparr>retcode = 255, stdout = None, duration = 1\<rparr>"

definition result_of_json :: "json \<Rightarrow> cmd_result" where
  "result_of_json j = \<lparr>retcode = 0, stdout = Some j, duration = 1\<rparr>"

text \<open>
  A describe document with the fields the readiness loop reads, and one of an available
  multi-AZ instance with its zones and endpoint.
\<close>

definition status_json :: "string \<Rightarrow> json \<Rightarrow> string \<Rightarrow> json" where
  "status_json state pending_values apply_status =
     JObj [(''DBInstances'',
            JArr [JObj [(''DBInstanceStatus'', JStr state),
                        (''PendingModifiedValues'', pending_values),
                        (''DBParameterGroups'',
                         JArr [JObj [(''ParameterApplyStatus'', JStr apply_status)]])]])]"

definition ha_instance_json :: json where
  "ha_instance_json =
     JObj [(''DBInstances'',
            JArr [JObj [(''DBInstanceStatus'', JStr ''available''),
                        (''PendingModifiedValues'', JObj []),
                        (''DBParameterGroups'',
                         JArr [JObj [(''ParameterApplyStatus'', JStr ''in-sync'')]]),
                        (''AvailabilityZone'', JStr ''us-east-1a''),
                        (''SecondaryAvailabilityZone'', JStr ''us-east-1b''),
                        (''Endpoint'',
                         JObj [(''Address'', JStr ''db.example''), (''Port'', JNum 3306)])]])]"

text \<open>A provider on which nothing exists: every command fails, no subnet can be made.\<close>

definition env_nothing :: env where
  "env_nothing =
     \<lparr>issue = (\<lambda>tr c. failed_result), raise_on_failure_default = True,
      zones_in_region = (\<lambda>tr r. Some [''us-east-1a'', ''us-east-1b'']),
      subnet_create = (\<lambda>tr s. False),
      external = (\<lambda>tr c. Some True),
      py_int = (\<lambda>j. case j of JNum n \<Rightarrow> Some n | _ \<Rightarrow> None)\<rparr>"

text \<open>
  Providers that answer every command with a document: the instance is being created
  until the trace has \<open>n\<close> events and available from then on; the first answer has no
  instance and the later ones an available one; the instance is available and subnets
  can be made; the instance is being modified; the instance is available with its zones
  and endpoint.
\<close>

definition env_ready_after :: "nat \<Rightarrow> env" where
  "env_ready_after n =
     env_nothing\<lparr>issue := (\<lambda>tr c.
        if length tr < n then result_of_json (status_json ''creating'' (JObj []) ''in-sync'')
        else result_of_json (status_json ''available'' (JObj []) ''in-sync''))\<rparr>"

definition env_unreadable_once :: env where
  "env_unreadable_once =
     env_nothing\<lparr>issue := (\<lambda>tr c.
        if tr = [] then result_of_json (JObj [(''DBInstances'', JArr [])])
        else result_of_json (status_json ''available'' (JObj []) ''in-sync''))\<rparr>"

definition env_available :: env where
  "env_available =
     env_nothing\<lparr>issue := (\<lambda>tr c. result_of_json (status_json ''available'' (JObj []) ''in-sync'')),
                 subnet_create := (\<lambda>tr s. True)\<rparr>"

definition env_modifying :: env where
  "env_modifying =
     env_nothing\<lparr>issue := (\<lambda>tr c. result_of_json (status_json ''modifying'' (JObj []) ''in-sync''))\<rparr>"

definition env_ha_ready :: env where
  "env_ha_ready = env_nothing\<lparr>issue := (\<lambda>tr c. result_of_json ha_instance_json)\<rparr>"

text \<open>
  A new database object, an Aurora cluster of two instances with its dependencies, and
  a high-availability MySQL instance.
\<close>

definition new_db :: "bool \<Rightarrow> engine \<Rightarrow> aws_db" where
  "new_db managed eng =
     init managed eng False None ''us-east-1a'' ''run1'' ''us-east-1''
       (AwsSubnet 0 ''us-east-1a'') ''sg-0'' ''10.0.0.9'' (\<lambda>zs. ''us-east-1'')"

definition aurora_db_in_use :: aws_db where
  "aurora_db_in_use =
     (new_db True AURORA_MYSQL)
       \<lparr>cluster_id := Some ''pkb-db-cluster-run1'',
        all_instance_ids := [''pkb-db-instance-run1'', ''pkb-db-instance-run1-us-east-1b''],
        parameter_group := Some ''pkb-parameter-group-run1'',
        subnets_owned_by_db := [AwsSubnet 1 ''us-east-1b''],
        subnets_used_by_db := [AwsSubnet 0 ''us-east-1a'', AwsSubnet 1 ''us-east-1b''],
        db_subnet_group_name := Some ''pkb-db-subnet-group-run1'',
        security_group_id := Some ''sg-0''\<rparr>"

definition ha_db :: aws_db where
  "ha_db = (new_db True MYSQL)\<lparr>high_availability := True,
                                 all_instance_ids := [''pkb-db-instance-run1'']\<rparr>"

section \<open>Properties\<close>

subsection \<open>The command executor\<close>

lemma IssueCommand_False:
  "IssueCommand env cmd False w =
     (Inr (issue env (trace w) cmd),
      w\<lparr>trace := trace w @ [(Command cmd False, Exit (issue env (trace w) cmd))],
        clock := clock w + duration (issue env (trace w) cmd)\<rparr>)"
  by (simp add: IssueCommand_def Let_def)

lemma IssueCommand_calls:
  "IssueCommand env cmd flag w = (r, w') \<Longrightarrow> calls w' = calls w @ [Command cmd flag]"
  by (auto simp: IssueCommand_def Let_def calls_def split: if_splits)

lemma call_external_calls:
  "call_external env c w = (r, w') \<Longrightarrow> calls w' = calls w @ [External c]"
  by (auto simp: call_external_def Let_def calls_def split: option.splits)

lemma call_external_returns:
  "external env (trace w) c \<noteq> None \<Longrightarrow> \<exists>b w'. call_external env c w = (Inr b, w')"
  by (auto simp: call_external_def Let_def)

subsection \<open>Deletion\<close>

lemma Delete_instances_ok:
  "\<exists>w'. Delete_instances env db ids w = (Inr (), w') \<and>
        calls w' = calls w @ map (\<lambda>i. Command (RdsDeleteDbInstance i (region db)) False) ids"
proof (induction ids arbitrary: w)
  case Nil
  then show ?case by simp
next
  case (Cons i ids)
  let ?r = "issue env (trace w) (RdsDeleteDbInstance i (region db))"
  obtain w1 where w1: "IssueCommand env (RdsDeleteDbInstance i (region db)) False w = (Inr ?r, w1)"
    by (simp add: IssueCommand_False)
  then have c1: "calls w1 = calls w @ [Command (RdsDeleteDbInstance i (region db)) False]"
    by (rule IssueCommand_calls)
  from Cons.IH[of w1] obtain w' where
    "Delete_instances env db ids w1 = (Inr (), w')"
    "calls w' = calls w1 @ map (\<lambda>i. Command (RdsDeleteDbInstance i (region db)) False) ids"
    by blast
  with w1 c1 show ?case by simp
qed

lemma Delete_managed:
  assumes "is_managed_db db"
  shows "\<exists>w'. Delete env db w = (Inr (), db, w') \<and> calls w' = calls w @ Delete_calls db"
proof -
  obtain w1 where d: "Delete_instances env db (all_instance_ids db) w = (Inr (), w1)"
    and c1: "calls w1 = calls w @
               map (\<lambda>i. Command (RdsDeleteDbInstance i (region db)) False) (all_instance_ids db)"
    using Delete_instances_ok by blast
  show ?thesis
  proof (cases "cluster_id db")
    case None
    with assms d c1 show ?thesis by (simp add: Delete_def Delete_calls_def)
  next
    case (Some cid)
    let ?r = "issue env (trace w1) (RdsDeleteDbCluster cid (region db))"
    obtain w2 where w2: "IssueCommand env (RdsDeleteDbCluster cid (region db)) False w1 = (Inr ?r, w2)"
      by (simp add: IssueCommand_False)
    then have "calls w2 = calls w1 @ [Command (RdsDeleteDbCluster cid (region db)) False]"
      by (rule IssueCommand_calls)
    with assms d c1 w2 Some show ?thesis by (simp add: Delete_def Delete_calls_def)
  qed
qed

lemma Delete_unmanaged:
  assumes "\<not> is_managed_db db"
    and "\<forall>tr. external env tr DisallowAllPorts \<noteq> None"
    and "\<forall>tr. external env tr PrintUnmanagedDbStats \<noteq> None"
  shows "\<exists>w'. Delete env db w = (Inr (), db\<lparr>unmanaged_db_exists := Some False\<rparr>, w')"
proof -
  obtain b1 w1 where s1:
    "(if has_firewall db then call_external env DisallowAllPorts w else (Inr True, w)) = (Inr b1, w1)"
    using call_external_returns[of env w DisallowAllPorts] assms(2) by (cases "has_firewall db") auto
  obtain b2 w2 where s2: "call_external env PrintUnmanagedDbStats w1 = (Inr b2, w2)"
    using call_external_returns[of env w1 PrintUnmanagedDbStats] assms(3) by auto
  from assms(1) s1 s2 show ?thesis by (simp add: Delete_def Let_def)
qed

text \<open>
  C1. \<^verbatim>\<open>_Delete\<close> is idempotent. For a managed database every delete command is issued
  with \<^verbatim>\<open>raise_on_failure=False\<close>, so whatever the provider answers (in particular when
  the instances do not exist and every command fails) the call raises nothing and leaves
  the object as it was; a second call behaves the same and ends in the same object
  state. For an unmanaged database the call marks the database as not existing, and does
  so again the second time; here the two helpers of the base class and the firewall,
  which are not in the sources, are assumed to return.
\<close>

theorem Delete_idempotent:
  assumes "is_managed_db db \<or>
           (\<forall>tr. external env tr DisallowAllPorts \<noteq> None \<and>
                 external env tr PrintUnmanagedDbStats \<noteq> None)"
  shows "\<exists>db1 w1 w2.
           Delete env db w = (Inr (), db1, w1) \<and>
           Delete env db1 w1 = (Inr (), db1, w2) \<and>
           db1 = (if is_managed_db db then db else db\<lparr>unmanaged_db_exists := Some False\<rparr>) \<and>
           (if is_managed_db db
            then calls w1 = calls w @ Delete_calls db \<and> calls w2 = calls w1 @ Delete_calls db
            else Exists env db1 w1 = (Inr (Some False), w1) \<and>
                 Exists env db1 w2 = (Inr (Some False), w2))"
proof (cases "is_managed_db db")
  case True
  obtain w1 where 1: "Delete env db w = (Inr (), db, w1)" "calls w1 = calls w @ Delete_calls db"
    using Delete_managed[OF True] by blast
  obtain w2 where 2: "Delete env db w1 = (Inr (), db, w2)" "calls w2 = calls w1 @ Delete_calls db"
    using Delete_managed[OF True] by blast
  from True 1 2 show ?thesis by simp
next
  case False
  let ?db1 = "db\<lparr>unmanaged_db_exists := Some False\<rparr>"
  from False assms have ext:
    "\<forall>tr. external env tr DisallowAllPorts \<noteq> None"
    "\<forall>tr. external env tr PrintUnmanagedDbStats \<noteq> None"
    by auto
  obtain w1 where 1: "Delete env db w = (Inr (), ?db1, w1)"
    using Delete_unmanaged[OF False ext] by blast
  have um: "\<not> is_managed_db ?db1" using False by simp
  obtain w2 where 2: "Delete env ?db1 w1 = (Inr (), ?db1\<lparr>unmanaged_db_exists := Some False\<rparr>, w2)"
    using Delete_unmanaged[OF um ext] by blast
  from False 1 2 show ?thesis by (simp add: Exists_def)
qed

theorem Delete_idempotent_witness:
  "is_managed_db ((new_db True MYSQL)\<lparr>all_instance_ids := [''pkb-db-instance-run1'']\<rparr>) \<and>
   (\<exists>w1 w2.
      Delete env_nothing ((new_db True MYSQL)\<lparr>all_instance_ids := [''pkb-db-instance-run1'']\<rparr>) world0
        = (Inr (), (new_db True MYSQL)\<lparr>all_instance_ids := [''pkb-db-instance-run1'']\<rparr>, w1) \<and>
      Delete env_nothing ((new_db True MYSQL)\<lparr>all_instance_ids := [''pkb-db-instance-run1'']\<rparr>) w1
        = (Inr (), (new_db True MYSQL)\<lparr>all_instance_ids := [''pkb-db-instance-run1'']\<rparr>, w2) \<and>
      calls w2 = calls w1 @ [Command (RdsDeleteDbInstance ''pkb-db-instance-run1'' ''us-east-1'') False])"
proof -
  let ?db = "(new_db True MYSQL)\<lparr>all_instance_ids := [''pkb-db-instance-run1'']\<rparr>"
  have m: "is_managed_db ?db" by (simp add: new_db_def init_def)
  have dc: "Delete_calls ?db = [Command (RdsDeleteDbInstance ''pkb-db-instance-run1'' ''us-east-1'') False]"
    by (simp add: Delete_calls_def new_db_def init_def)
  from Delete_idempotent[of ?db env_nothing world0] m dc show ?thesis by auto
qed

subsection \<open>Existence\<close>

text \<open>
  C2. Before \<^verbatim>\<open>_Create\<close> a managed database has no instance identifiers, the loop of
  \<^verbatim>\<open>_Exists\<close> over them is empty, and the method returns True without asking the
  provider: the claim that it returns false before creation fails on every freshly
  constructed managed database.
\<close>

theorem Exists_before_create_managed:
  "Exists env (init True eng ha szones dzone uri cregion csubnet sg sip GetRegionFromZones) w
     = (Inr (Some True), w)"
  by (simp add: Exists_def init_def Let_def)

subsection \<open>The default port\<close>

text \<open>
  C10. For each of the three SQL Server engines, which are RDS engines with a default
  version, \<^verbatim>\<open>GetDefaultPort\<close> raises \<^verbatim>\<open>RelationalDbEngineNotFoundError\<close>: it returns the
  SQL Server port only for the plain \<^verbatim>\<open>SQLSERVER\<close> constant. So \<^verbatim>\<open>_Create\<close> of an
  unmanaged database with such an engine raises, once the database is set up, before the
  port is opened.
\<close>

theorem GetDefaultPort_sqlserver_variants:
  assumes "engine db \<in> set SQL_SERVER_ENGINES"
  shows "GetDefaultPort db = Inl RelationalDbEngineNotFoundError \<and>
         engine db \<in> set RDS_ENGINES \<and>
         MAP_ENGINE_TO_DEFAULT_VERSION (engine db) = Some DEFAULT_SQLSERVER_VERSION \<and>
         GetDefaultPort (db\<lparr>engine := SQLSERVER\<rparr>) = Inr DEFAULT_SQLSERVER_PORT \<and>
         (if is_managed_db db then True
          else (\<exists>e db' w'. Create env db w = (Inl e, db', w') \<and>
                  unmanaged_db_exists db' = unmanaged_db_exists db \<and>
                  (if external env (trace w) SetupUnmanagedDatabase = None
                   then e = CollaboratorError else e = RelationalDbEngineNotFoundError) \<and>
                  (\<forall>p. External (AllowPortInSecurityGroup p) \<notin> set (calls w') - set (calls w))))"
proof -
  have p: "GetDefaultPort db = Inl RelationalDbEngineNotFoundError"
    using assms by (auto simp: SQL_SERVER_ENGINES_def GetDefaultPort_def)
  have p': "GetDefaultPort (db\<lparr>endpoint := Some (JStr (server_ip_address db)), has_firewall := True\<rparr>)
              = Inl RelationalDbEngineNotFoundError"
    using assms by (auto simp: SQL_SERVER_ENGINES_def GetDefaultPort_def)
  have r: "engine db \<in> set RDS_ENGINES"
    using assms by (auto simp: SQL_SERVER_ENGINES_def RDS_ENGINES_def)
  have v: "MAP_ENGINE_TO_DEFAULT_VERSION (engine db) = Some DEFAULT_SQLSERVER_VERSION"
    using assms by (auto simp: SQL_SERVER_ENGINES_def)
  have s: "GetDefaultPort (db\<lparr>engine := SQLSERVER\<rparr>) = Inr DEFAULT_SQLSERVER_PORT"
    by (simp add: GetDefaultPort_def)
  have c: "\<exists>e db' w'. Create env db w = (Inl e, db', w') \<and>
             unmanaged_db_exists db' = unmanaged_db_exists db \<and>
             (if external env (trace w) SetupUnmanagedDatabase = None
              then e = CollaboratorError else e = RelationalDbEngineNotFoundError) \<and>
             (\<forall>p. External (AllowPortInSecurityGroup p) \<notin> set (calls w') - set (calls w))"
    if "\<not> is_managed_db db"
    using that p'
    by (auto simp: Create_def Let_def call_external_def calls_def split: option.splits)
  from p r v s c show ?thesis by auto
qed

theorem GetDefaultPort_sqlserver_variants_witness:
  "engine (new_db False SQLSERVER_EXPRESS) \<in> set SQL_SERVER_ENGINES \<and>
   GetDefaultPort (new_db False SQLSERVER_EXPRESS) = Inl RelationalDbEngineNotFoundError \<and>
   fst (Create env_nothing (new_db False SQLSERVER_EXPRESS) world0)
     = Inl RelationalDbEngineNotFoundError"
proof -
  have e: "engine (new_db False SQLSERVER_EXPRESS) \<in> set SQL_SERVER_ENGINES"
    by (simp add: new_db_def init_def SQL_SERVER_ENGINES_def)
  have u: "\<not> is_managed_db (new_db False SQLSERVER_EXPRESS)"
    by (simp add: new_db_def init_def)
  have x: "external env_nothing (trace world0) SetupUnmanagedDatabase \<noteq> None"
    by (simp add: env_nothing_def)
  from GetDefaultPort_sqlserver_variants[OF e, of env_nothing world0] e u x show ?thesis
    by auto
qed

subsection \<open>Waiting for readiness\<close>

lemma instance_status_status_json:
  "instance_status (status_json state pending_values apply_status) =
     Some (state = ''available'' \<and> \<not> truthy pending_values \<and> apply_status \<noteq> ''applying'')"
  by (simp add: instance_status_def status_json_def)

lemma described_eq:
  "described env db iid w =
     w\<lparr>trace := trace w @ [(Command (RdsDescribeDbInstances iid (region db)) False,
                              Exit (issue env (trace w) (RdsDescribeDbInstances iid (region db))))],
       clock := clock w + duration (issue env (trace w) (RdsDescribeDbInstances iid (region db)))\<rparr>"
  by (simp add: described_def DescribeInstance_def IssueCommand_False split: option.splits)

lemma loop_deadline:
  "timeout \<le> timedelta_seconds (clock w) start \<Longrightarrow>
   IsInstanceReady_loop (Suc n) env db iid timeout start w = Some (Inr False, w)"
  by simp

lemma loop_step:
  assumes "\<not> timeout \<le> timedelta_seconds (clock w) start"
  shows "IsInstanceReady_loop (Suc n) env db iid timeout start w =
     (case poll_at env db iid w of
        Ready \<Rightarrow> Some (Inr True, described env db iid w)
      | NotReady \<Rightarrow> IsInstanceReady_loop n env db iid timeout start (sleep 5 (described env db iid w))
      | NoAnswer \<Rightarrow> IsInstanceReady_loop n env db iid timeout start (sleep 5 (described env db iid w))
      | Unreadable \<Rightarrow> Some (Inr False, described env db iid w)
      | NotJson \<Rightarrow> Some (Inl JSONDecodeError, described env db iid w))"
  using assms
  by (simp add: poll_at_def poll_result_of_def described_def DescribeInstance_def
      IssueCommand_False split: option.splits)


lemma keeps_waiting_Suc:
  "keeps_waiting (Suc k) timeout start env db iid w \<longleftrightarrow>
     timedelta_seconds (clock w) start < timeout \<and>
     poll_at env db iid w \<in> {NotReady, NoAnswer} \<and>
     keeps_waiting k timeout start env db iid (sleep 5 (described env db iid w))"
proof -
  have "(\<forall>i<Suc k. P i) \<longleftrightarrow> P 0 \<and> (\<forall>i<k. P (Suc i))" for P
    by (metis less_Suc_eq_0_disj Suc_less_eq zero_less_Suc)
  then show ?thesis unfolding keeps_waiting_def by simp
qed

lemma loop_runs:
  "keeps_waiting k timeout start env db iid w \<Longrightarrow>
   IsInstanceReady_loop (k + n) env db iid timeout start w =
   IsInstanceReady_loop n env db iid timeout start (after_polls k env db iid w)"
proof (induction k arbitrary: w)
  case 0
  then show ?case by simp
next
  case (Suc k)
  from Suc.prems have d: "\<not> timeout \<le> timedelta_seconds (clock w) start"
    and p: "poll_at env db iid w \<in> {NotReady, NoAnswer}"
    and kw: "keeps_waiting k timeout start env db iid (sleep 5 (described env db iid w))"
    by (auto simp: keeps_waiting_Suc)
  have "IsInstanceReady_loop (Suc k + n) env db iid timeout start w =
        IsInstanceReady_loop (k + n) env db iid timeout start (sleep 5 (described env db iid w))"
    using loop_step[OF d, of "k + n" env db iid] p by auto
  with Suc.IH[OF kw] show ?case by simp
qed

lemma after_polls_clock:
  "clock w + 5 * k \<le> clock (after_polls k env db iid w)"
proof (induction k arbitrary: w)
  case 0
  then show ?case by simp
next
  case (Suc k)
  have "clock w + 5 \<le> clock (sleep 5 (described env db iid w))"
    by (simp add: sleep_def described_eq)
  with Suc.IH[of "sleep 5 (described env db iid w)"] show ?case by simp
qed

lemma after_polls_calls:
  "calls (after_polls k env db iid w) = calls w @ concat (replicate k (poll_calls db iid))"
proof (induction k arbitrary: w)
  case 0
  then show ?case by simp
next
  case (Suc k)
  have "calls (sleep 5 (described env db iid w)) = calls w @ poll_calls db iid"
    by (simp add: sleep_def described_eq calls_def poll_calls_def)
  with Suc.IH[of "sleep 5 (described env db iid w)"] show ?case by simp
qed

lemma loop_times_out:
  assumes nr: "\<forall>tr. poll_result_of (issue env tr (RdsDescribeDbInstances iid (region db))) \<in> {NotReady, NoAnswer}"
    and dur: "\<forall>tr c. duration (issue env tr c) \<le> D"
    and bound: "timeout + D + 5 \<le> 86400"
  shows "start \<le> clock w \<Longrightarrow> clock w - start < 86400 \<Longrightarrow> timeout \<le> (clock w - start) + 5 * n \<Longrightarrow>
         \<exists>w'. IsInstanceReady_loop (Suc n) env db iid timeout start w = Some (Inr False, w') \<and>
              timeout \<le> clock w' - start"
proof (induction n arbitrary: w)
  case 0
  then have "timeout \<le> timedelta_seconds (clock w) start"
    by (simp add: timedelta_seconds_def)
  with 0 show ?case by (auto simp: timedelta_seconds_def)
next
  case (Suc n)
  show ?case
  proof (cases "timeout \<le> timedelta_seconds (clock w) start")
    case True
    with Suc.prems show ?thesis by (auto simp: timedelta_seconds_def)
  next
    case False
    let ?w1 = "sleep 5 (described env db iid w)"
    let ?d = "duration (issue env (trace w) (RdsDescribeDbInstances iid (region db)))"
    have c: "clock ?w1 = clock w + ?d + 5" by (simp add: sleep_def described_eq)
    have dD: "?d \<le> D" using dur by blast
    from False Suc.prems have lt: "clock w - start < timeout" by (simp add: timedelta_seconds_def)
    have p: "poll_at env db iid w \<in> {NotReady, NoAnswer}" using nr by (simp add: poll_at_def)
    have step: "IsInstanceReady_loop (Suc (Suc n)) env db iid timeout start w =
                IsInstanceReady_loop (Suc n) env db iid timeout start ?w1"
      using loop_step[OF False, of "Suc n" env db iid] p by auto
    have "start \<le> clock ?w1" "clock ?w1 - start < 86400" "timeout \<le> (clock ?w1 - start) + 5 * n"
      using c dD lt bound Suc.prems by auto
    from Suc.IH[OF this] step show ?thesis by simp
  qed
qed


lemma IsReady_single:
  "is_managed_db db \<Longrightarrow> all_instance_ids db = [iid] \<Longrightarrow>
   IsReady fuel env db timeout w = IsInstanceReady fuel env db iid timeout w"
  by (cases "IsInstanceReady fuel env db iid timeout w")
     (auto simp: IsReady_def split: sum.splits)

lemma keeps_waiting_0: "keeps_waiting 0 timeout start env db iid w"
  by (simp add: keeps_waiting_def)

lemma creating_not_ready:
  "poll_result_of (result_of_json (status_json ''creating'' (JObj []) ''in-sync'')) = NotReady"
  by (simp add: poll_result_of_def result_of_json_def instance_status_status_json status_json_def[symmetric])
    (simp add: status_json_def)

lemma available_ready:
  "poll_result_of (result_of_json (status_json ''available'' (JObj []) ''in-sync'')) = Ready"
  by (simp add: poll_result_of_def result_of_json_def instance_status_status_json)
    (simp add: status_json_def)




lemma issue_env_ready_after:
  "issue (env_ready_after n) tr c =
     (if length tr < n then result_of_json (status_json ''creating'' (JObj []) ''in-sync'')
      else result_of_json (status_json ''available'' (JObj []) ''in-sync''))"
  by (simp add: env_ready_after_def)

lemma length_trace_described:
  "length (trace (described env db iid w)) = Suc (length (trace w))"
  by (simp add: described_eq)

lemma clock_described:
  "clock (described env db iid w) =
     clock w + duration (issue env (trace w) (RdsDescribeDbInstances iid (region db)))"
  by (simp add: described_eq)

lemma length_trace_sleep: "length (trace (sleep n w)) = Suc (length (trace w))"
  by (simp add: sleep_def)

lemma clock_sleep: "clock (sleep n w) = clock w + n"
  by (simp add: sleep_def)

lemma duration_env_ready_after: "duration (issue (env_ready_after n) tr c) = 1"
  by (simp add: issue_env_ready_after result_of_json_def)

lemmas poll_world_simps =
  length_trace_described clock_described length_trace_sleep clock_sleep

lemma issue_env_unreadable_once:
  "issue env_unreadable_once tr c =
     (if tr = [] then result_of_json (JObj [(''DBInstances'', JArr [])])
      else result_of_json (status_json ''available'' (JObj []) ''in-sync''))"
  by (simp add: env_unreadable_once_def)

lemma unreadable_document:
  "poll_result_of (result_of_json (JObj [(''DBInstances'', JArr [])])) = Unreadable"
  by (simp add: poll_result_of_def result_of_json_def instance_status_def)

text \<open>
  C3. \<^verbatim>\<open>_IsInstanceReady\<close> polls the provider and sleeps five seconds between polls.
  As long as the provider reports a status that is not ready (or does not answer), the
  wait goes on: after \<open>k\<close> such polls exactly \<open>k\<close> describe commands and \<open>k\<close> sleeps of
  five seconds have happened. At the first poll the deadline has passed the method
  returns False, and at the first poll that finds the instance ready (state
  \<^verbatim>\<open>available\<close>, no pending modified values, no parameter being applied) it returns
  True, at once. The elapsed time is read as the code reads it, through the seconds
  field of the time difference; for a deadline that, with one poll, stays within a day
  (the code's \<^verbatim>\<open>IS_READY_TIMEOUT\<close> is one hour) a provider that never reports ready makes
  the method return False after the deadline, within \<open>timeout div 5 + 1\<close> polls. For a
  managed database with one instance \<^verbatim>\<open>_IsReady\<close> is that wait.
\<close>

theorem IsInstanceReady_contract:
  "(keeps_waiting k timeout (clock w) env db iid w \<and> k < fuel \<longrightarrow>
      calls (after_polls k env db iid w) = calls w @ concat (replicate k (poll_calls db iid)) \<and>
      (if timeout \<le> timedelta_seconds (clock (after_polls k env db iid w)) (clock w)
       then IsInstanceReady fuel env db iid timeout w = Some (Inr False, after_polls k env db iid w)
       else poll_at env db iid (after_polls k env db iid w) = Ready \<longrightarrow>
            IsInstanceReady fuel env db iid timeout w =
              Some (Inr True, described env db iid (after_polls k env db iid w)))) \<and>
   ((\<forall>tr. poll_result_of (issue env tr (RdsDescribeDbInstances iid (region db))) \<in> {NotReady, NoAnswer}) \<and>
    (\<forall>tr c. duration (issue env tr c) \<le> D) \<and> timeout + D + 5 \<le> 86400 \<and> timeout \<le> 5 * n \<longrightarrow>
      (\<exists>w'. IsInstanceReady (Suc n) env db iid timeout w = Some (Inr False, w') \<and>
            timeout \<le> clock w' - clock w)) \<and>
   (is_managed_db db \<and> all_instance_ids db = [iid] \<longrightarrow>
      IsReady fuel env db timeout w = IsInstanceReady fuel env db iid timeout w)"
proof (intro conjI impI)
  assume a: "keeps_waiting k timeout (clock w) env db iid w \<and> k < fuel"
  show "calls (after_polls k env db iid w) = calls w @ concat (replicate k (poll_calls db iid))"
    by (rule after_polls_calls)
  from a obtain m where m: "fuel = k + Suc m" using less_imp_Suc_add by auto
  from a have run: "IsInstanceReady fuel env db iid timeout w =
      IsInstanceReady_loop (Suc m) env db iid timeout (clock w) (after_polls k env db iid w)"
    unfolding IsInstanceReady_def m by (intro loop_runs) simp
  show "if timeout \<le> timedelta_seconds (clock (after_polls k env db iid w)) (clock w)
       then IsInstanceReady fuel env db iid timeout w = Some (Inr False, after_polls k env db iid w)
       else poll_at env db iid (after_polls k env db iid w) = Ready \<longrightarrow>
            IsInstanceReady fuel env db iid timeout w =
              Some (Inr True, described env db iid (after_polls k env db iid w))"
  proof (cases "timeout \<le> timedelta_seconds (clock (after_polls k env db iid w)) (clock w)")
    case True
    with run show ?thesis by simp
  next
    case False
    from loop_step[OF False, of m env db iid] run False show ?thesis by simp
  qed
next
  assume a: "(\<forall>tr. poll_result_of (issue env tr (RdsDescribeDbInstances iid (region db))) \<in> {NotReady, NoAnswer}) \<and>
    (\<forall>tr c. duration (issue env tr c) \<le> D) \<and> timeout + D + 5 \<le> 86400 \<and> timeout \<le> 5 * n"
  then have "\<exists>w'. IsInstanceReady_loop (Suc n) env db iid timeout (clock w) w = Some (Inr False, w') \<and>
              timeout \<le> clock w' - clock w"
    by (intro loop_times_out[where D = D]) auto
  then show "\<exists>w'. IsInstanceReady (Suc n) env db iid timeout w = Some (Inr False, w') \<and>
            timeout \<le> clock w' - clock w"
    by (simp add: IsInstanceReady_def)
next
  assume "is_managed_db db \<and> all_instance_ids db = [iid]"
  then show "IsReady fuel env db timeout w = IsInstanceReady fuel env db iid timeout w"
    by (simp add: IsReady_single)
qed

theorem IsInstanceReady_contract_witness:
  "keeps_waiting (Suc (Suc 0)) 3600 (clock world0) (env_ready_after 4) (new_db True MYSQL) ''db1'' world0 \<and>
   IsInstanceReady 3 (env_ready_after 4) (new_db True MYSQL) ''db1'' 3600 world0 =
     Some (Inr True,
           described (env_ready_after 4) (new_db True MYSQL) ''db1''
             (after_polls (Suc (Suc 0)) (env_ready_after 4) (new_db True MYSQL) ''db1'' world0)) \<and>
   clock (described (env_ready_after 4) (new_db True MYSQL) ''db1''
             (after_polls (Suc (Suc 0)) (env_ready_after 4) (new_db True MYSQL) ''db1'' world0)) = 13 \<and>
   (\<exists>w'. IsInstanceReady 3 env_nothing (new_db True MYSQL) ''db1'' 10 world0 = Some (Inr False, w') \<and>
         10 \<le> clock w' - clock world0)"
proof -
  let ?env = "env_ready_after 4" and ?db = "new_db True MYSQL"
  let ?w1 = "sleep 5 (described ?env ?db ''db1'' world0)"
  let ?w2 = "sleep 5 (described ?env ?db ''db1'' ?w1)"
  have w1: "length (trace ?w1) = 2 \<and> clock ?w1 = 6"
    by (simp add: poll_world_simps duration_env_ready_after world0_def)
  have w2: "length (trace ?w2) = 4 \<and> clock ?w2 = 12"
    using w1 by (simp add: poll_world_simps duration_env_ready_after)
  have p0: "poll_at ?env ?db ''db1'' world0 = NotReady"
    by (simp add: poll_at_def issue_env_ready_after creating_not_ready world0_def)
  have p1: "poll_at ?env ?db ''db1'' ?w1 = NotReady"
    using w1 by (simp add: poll_at_def issue_env_ready_after creating_not_ready)
  have rd: "poll_at ?env ?db ''db1'' ?w2 = Ready"
    using w2 by (simp add: poll_at_def issue_env_ready_after available_ready)
  have kw: "keeps_waiting (Suc (Suc 0)) 3600 (clock world0) ?env ?db ''db1'' world0"
    using w1 p0 p1 by (simp add: keeps_waiting_Suc keeps_waiting_0 timedelta_seconds_def world0_def)
  have nd: "\<not> 3600 \<le> timedelta_seconds (clock ?w2) (clock world0)"
    using w2 by (simp add: timedelta_seconds_def world0_def)
  have c: "clock (described ?env ?db ''db1'' ?w2) = 13"
    using w2 by (simp add: poll_world_simps duration_env_ready_after)
  have nr: "\<forall>tr. poll_result_of (issue env_nothing tr (RdsDescribeDbInstances ''db1'' (region ?db)))
              \<in> {NotReady, NoAnswer}"
    by (simp add: env_nothing_def failed_result_def poll_result_of_def)
  have du: "\<forall>tr c. duration (issue env_nothing tr c) \<le> 1"
    by (simp add: env_nothing_def failed_result_def)
  have A: "IsInstanceReady 3 ?env ?db ''db1'' 3600 world0 = Some (Inr True, described ?env ?db ''db1'' ?w2)"
    using IsInstanceReady_contract[of "Suc (Suc 0)" 3600 world0 ?env ?db "''db1''" 3 1 0] kw nd rd
    by simp
  have B: "\<exists>w'. IsInstanceReady 3 env_nothing ?db ''db1'' 10 world0 = Some (Inr False, w') \<and>
         10 \<le> clock w' - clock world0"
    using IsInstanceReady_contract[of 0 10 world0 env_nothing ?db "''db1''" 1 1 2] nr du
    by (simp add: numeral_3_eq_3)
  from kw A B c show ?thesis by simp
qed


text \<open>
  C4, as amended. During the wait a describe command that fails (a non-zero exit), or
  whose document is empty, counts as not ready yet: the loop sleeps five seconds and
  polls again. A document that lacks a field the loop reads ends the wait at once with
  False, before the deadline.
\<close>

theorem IsInstanceReady_query_failure:
  "keeps_waiting k timeout (clock w) env db iid w \<and> k < fuel \<and>
   timedelta_seconds (clock (after_polls k env db iid w)) (clock w) < timeout \<longrightarrow>
     (let wk = after_polls k env db iid w;
          r = issue env (trace wk) (RdsDescribeDbInstances iid (region db))
      in (retcode r \<noteq> 0 \<or> (\<exists>j. stdout r = Some j \<and> \<not> truthy j) \<longrightarrow>
            IsInstanceReady fuel env db iid timeout w =
              IsInstanceReady_loop (fuel - Suc k) env db iid timeout (clock w)
                (sleep 5 (described env db iid wk))) \<and>
         (retcode r = 0 \<and> (\<exists>j. stdout r = Some j \<and> truthy j \<and> instance_status j = None) \<longrightarrow>
            IsInstanceReady fuel env db iid timeout w = Some (Inr False, described env db iid wk)))"
proof (intro impI)
  assume a: "keeps_waiting k timeout (clock w) env db iid w \<and> k < fuel \<and>
   timedelta_seconds (clock (after_polls k env db iid w)) (clock w) < timeout"
  let ?wk = "after_polls k env db iid w"
  let ?r = "issue env (trace ?wk) (RdsDescribeDbInstances iid (region db))"
  from a obtain m where m: "fuel = k + Suc m" using less_imp_Suc_add by auto
  from a have run: "IsInstanceReady fuel env db iid timeout w =
      IsInstanceReady_loop (Suc m) env db iid timeout (clock w) ?wk"
    unfolding IsInstanceReady_def m by (intro loop_runs) simp
  from a have nd: "\<not> timeout \<le> timedelta_seconds (clock ?wk) (clock w)" by simp
  note step = loop_step[OF nd, of m env db iid]
  have 1: "IsInstanceReady fuel env db iid timeout w =
              IsInstanceReady_loop (fuel - Suc k) env db iid timeout (clock w)
                (sleep 5 (described env db iid ?wk))"
    if "retcode ?r \<noteq> 0 \<or> (\<exists>j. stdout ?r = Some j \<and> \<not> truthy j)"
  proof -
    from that have "poll_at env db iid ?wk = NoAnswer"
      by (auto simp: poll_at_def poll_result_of_def)
    with step run m show ?thesis by simp
  qed
  have 2: "IsInstanceReady fuel env db iid timeout w = Some (Inr False, described env db iid ?wk)"
    if "retcode ?r = 0 \<and> (\<exists>j. stdout ?r = Some j \<and> truthy j \<and> instance_status j = None)"
  proof -
    from that have "poll_at env db iid ?wk = Unreadable"
      by (auto simp: poll_at_def poll_result_of_def)
    with step run show ?thesis by simp
  qed
  from 1 2 show "let wk = after_polls k env db iid w;
          r = issue env (trace wk) (RdsDescribeDbInstances iid (region db))
      in (retcode r \<noteq> 0 \<or> (\<exists>j. stdout r = Some j \<and> \<not> truthy j) \<longrightarrow>
            IsInstanceReady fuel env db iid timeout w =
              IsInstanceReady_loop (fuel - Suc k) env db iid timeout (clock w)
                (sleep 5 (described env db iid wk))) \<and>
         (retcode r = 0 \<and> (\<exists>j. stdout r = Some j \<and> truthy j \<and> instance_status j = None) \<longrightarrow>
            IsInstanceReady fuel env db iid timeout w = Some (Inr False, described env db iid wk))"
    by (simp add: Let_def)
qed

theorem IsInstanceReady_query_failure_witness:
  "keeps_waiting 0 3600 (clock world0) env_nothing (new_db True MYSQL) ''db1'' world0 \<and>
   retcode (issue env_nothing (trace world0) (RdsDescribeDbInstances ''db1'' (region (new_db True MYSQL)))) \<noteq> 0 \<and>
   IsInstanceReady 2 env_nothing (new_db True MYSQL) ''db1'' 3600 world0 =
     IsInstanceReady_loop 1 env_nothing (new_db True MYSQL) ''db1'' 3600 (clock world0)
       (sleep 5 (described env_nothing (new_db True MYSQL) ''db1'' world0)) \<and>
   retcode (issue env_unreadable_once (trace world0) (RdsDescribeDbInstances ''db1'' (region (new_db True MYSQL)))) = 0 \<and>
   IsInstanceReady 2 env_unreadable_once (new_db True MYSQL) ''db1'' 3600 world0 =
     Some (Inr False, described env_unreadable_once (new_db True MYSQL) ''db1'' world0)"
proof -
  let ?db = "new_db True MYSQL"
  have f: "retcode (issue env_nothing (trace world0) (RdsDescribeDbInstances ''db1'' (region ?db))) \<noteq> 0"
    by (simp add: env_nothing_def failed_result_def)
  have u: "issue env_unreadable_once (trace world0) (RdsDescribeDbInstances ''db1'' (region ?db))
             = result_of_json (JObj [(''DBInstances'', JArr [])])"
    by (simp add: issue_env_unreadable_once world0_def)
  have s: "instance_status (JObj [(''DBInstances'', JArr [])]) = None"
    by (simp add: instance_status_def)
  have t: "timedelta_seconds (clock world0) (clock world0) < 3600"
    by (simp add: timedelta_seconds_def)
  have A: "IsInstanceReady 2 env_nothing ?db ''db1'' 3600 world0 =
     IsInstanceReady_loop 1 env_nothing ?db ''db1'' 3600 (clock world0)
       (sleep 5 (described env_nothing ?db ''db1'' world0))"
    using IsInstanceReady_query_failure[of 0 3600 world0 env_nothing ?db "''db1''" 2] f t
    by (simp add: keeps_waiting_0 Let_def)
  have B: "IsInstanceReady 2 env_unreadable_once ?db ''db1'' 3600 world0 =
     Some (Inr False, described env_unreadable_once ?db ''db1'' world0)"
    using IsInstanceReady_query_failure[of 0 3600 world0 env_unreadable_once ?db "''db1''" 2] u s t
    by (simp add: keeps_waiting_0 Let_def result_of_json_def)
  from f u A B show ?thesis by (simp add: keeps_waiting_0 result_of_json_def)
qed


text \<open>
  The claim C4 as stated fails: the provider answers the first describe with a document
  without instances and would report the instance available from then on; the wait
  returns False after that one call, with the whole hour of the deadline left.
\<close>

theorem unreadable_response_counterexample:
  "IsInstanceReady 3 env_unreadable_once (new_db True MYSQL) ''db1'' IS_READY_TIMEOUT world0 =
     Some (Inr False, described env_unreadable_once (new_db True MYSQL) ''db1'' world0) \<and>
   clock (described env_unreadable_once (new_db True MYSQL) ''db1'' world0) - clock world0
     < IS_READY_TIMEOUT \<and>
   poll_at env_unreadable_once (new_db True MYSQL) ''db1''
     (sleep 5 (described env_unreadable_once (new_db True MYSQL) ''db1'' world0)) = Ready"
proof -
  let ?env = env_unreadable_once and ?db = "new_db True MYSQL"
  have u: "poll_at ?env ?db ''db1'' world0 = Unreadable"
    by (simp add: poll_at_def world0_def issue_env_unreadable_once unreadable_document)
  have nd: "\<not> IS_READY_TIMEOUT \<le> timedelta_seconds (clock world0) (clock world0)"
    by (simp add: IS_READY_TIMEOUT_def timedelta_seconds_def)
  have "IsInstanceReady (Suc (Suc (Suc 0))) ?env ?db ''db1'' IS_READY_TIMEOUT world0 =
     Some (Inr False, described ?env ?db ''db1'' world0)"
    using loop_step[OF nd, of "Suc (Suc 0)" ?env ?db "''db1''"] u
    by (simp add: IsInstanceReady_def)
  then have a: "IsInstanceReady 3 ?env ?db ''db1'' IS_READY_TIMEOUT world0 =
     Some (Inr False, described ?env ?db ''db1'' world0)"
    by (simp only: numeral_3_eq_3)
  have b: "clock (described ?env ?db ''db1'' world0) - clock world0 < IS_READY_TIMEOUT"
    by (simp add: clock_described world0_def issue_env_unreadable_once result_of_json_def
        IS_READY_TIMEOUT_def)
  have c: "poll_at ?env ?db ''db1'' (sleep 5 (described ?env ?db ''db1'' world0)) = Ready"
    by (simp add: poll_at_def sleep_def issue_env_unreadable_once available_ready)
  from a b c show ?thesis by simp
qed

subsection \<open>Networking, ownership and the order of creation and deletion\<close>

lemma owns_step_refl: "owns_step db w db w"
  by (simp add: owns_step_def)

lemma owns_step_trans:
  assumes "owns_step db w db1 w1" "owns_step db1 w1 db2 w2"
  shows "owns_step db w db2 w2"
proof -
  from assms(1) obtain n1 where 1:
    "subnets_owned_by_db db1 = subnets_owned_by_db db @ n1"
    "created_subnets (trace w1) = created_subnets (trace w) @ n1"
    "list_all (\<lambda>s. next_ref w \<le> subnet_ref s) n1"
    "deleted_subnets (trace w1) = deleted_subnets (trace w)"
    "next_ref w \<le> next_ref w1" "client_subnet db1 = client_subnet db"
    "is_managed_db db1 = is_managed_db db"
    "set (subnets_used_by_db db) \<subseteq> set (subnets_used_by_db db1)"
    unfolding owns_step_def by blast
  from assms(2) obtain n2 where 2:
    "subnets_owned_by_db db2 = subnets_owned_by_db db1 @ n2"
    "created_subnets (trace w2) = created_subnets (trace w1) @ n2"
    "list_all (\<lambda>s. next_ref w1 \<le> subnet_ref s) n2"
    "deleted_subnets (trace w2) = deleted_subnets (trace w1)"
    "next_ref w1 \<le> next_ref w2" "client_subnet db2 = client_subnet db1"
    "is_managed_db db2 = is_managed_db db1"
    "set (subnets_used_by_db db1) \<subseteq> set (subnets_used_by_db db2)"
    unfolding owns_step_def by blast
  from 1(5) 2(3) have "list_all (\<lambda>s. next_ref w \<le> subnet_ref s) n2"
    by (auto simp: list_all_iff)
  with 1 2 show ?thesis
    unfolding owns_step_def by (intro exI[of _ "n1 @ n2"]) auto
qed

lemma created_subnets_append [simp]:
  "created_subnets (xs @ ys) = created_subnets xs @ created_subnets ys"
  by (simp add: created_subnets_def)

lemma deleted_subnets_append [simp]:
  "deleted_subnets (xs @ ys) = deleted_subnets xs @ deleted_subnets ys"
  by (simp add: deleted_subnets_def)

lemma owns_step_IssueCommand:
  "IssueCommand env cmd flag w = (r, w') \<Longrightarrow> owns_step db w db w'"
  by (auto simp: IssueCommand_def Let_def owns_step_def created_subnets_def deleted_subnets_def
      split: if_splits)

lemma owns_step_call_external:
  "call_external env c w = (r, w') \<Longrightarrow> owns_step db w db w'"
  by (auto simp: call_external_def Let_def owns_step_def created_subnets_def deleted_subnets_def
      split: option.splits)

lemma owns_step_GetNewZones:
  "GetNewZones env db w = (r, w') \<Longrightarrow> owns_step db w db w'"
  by (auto simp: GetNewZones_def Let_def owns_step_def created_subnets_def deleted_subnets_def
      split: option.splits)

lemma owns_step_CreateSubnetInZone:
  "CreateSubnetInZone env z db w = (r, db', w') \<Longrightarrow> owns_step db w db' w'"
  by (auto simp: CreateSubnetInZone_def Let_def owns_step_def created_subnets_def
      deleted_subnets_def split: if_splits)

lemma owns_step_used:
  "owns_step db w (db\<lparr>subnets_used_by_db := subnets_used_by_db db @ [s]\<rparr>) w"
  by (auto simp: owns_step_def)

lemma owns_step_AllZones_loop:
  "CreateSubnetInAllZones_loop env zs db w = (r, db', w') \<Longrightarrow> owns_step db w db' w'"
proof (induction zs arbitrary: db w)
  case Nil
  then show ?case by (simp add: owns_step_refl)
next
  case (Cons z zs)
  show ?case
  proof (cases "z \<noteq> subnet_zone (client_subnet db)")
    case True
    obtain r1 db1 w1 where c: "CreateSubnetInZone env z db w = (r1, db1, w1)"
      by (metis prod_cases3)
    note s1 = owns_step_CreateSubnetInZone[OF c]
    show ?thesis
    proof (cases r1)
      case (Inl e)
      with Cons.prems True c s1 show ?thesis by simp
    next
      case (Inr x)
      with Cons.prems True c have "CreateSubnetInAllZones_loop env zs db1 w1 = (r, db', w')" by simp
      from owns_step_trans[OF s1 Cons.IH[OF this]] show ?thesis .
    qed
  next
    case False
    with Cons.prems have "CreateSubnetInAllZones_loop env zs
        (db\<lparr>subnets_used_by_db := subnets_used_by_db db @ [client_subnet db]\<rparr>) w = (r, db', w')"
      by simp
    from owns_step_trans[OF owns_step_used Cons.IH[OF this]] show ?thesis .
  qed
qed

lemma owns_step_AdditionalZone_loop:
  "CreateSubnetInAdditionalZone_loop env zs db w = (r, db', w') \<Longrightarrow> owns_step db w db' w'"
proof (induction zs arbitrary: db w)
  case Nil
  then show ?case by (simp add: owns_step_refl)
next
  case (Cons z zs)
  obtain r1 db1 w1 where c: "CreateSubnetInZone env z db w = (r1, db1, w1)"
    by (metis prod_cases3)
  note s1 = owns_step_CreateSubnetInZone[OF c]
  show ?case
  proof (cases r1)
    case (Inr x)
    with Cons.prems c s1 show ?thesis by simp
  next
    case (Inl e)
    with Cons.prems c have "CreateSubnetInAdditionalZone_loop env zs db1 w1 = (r, db', w')" by simp
    from owns_step_trans[OF s1 Cons.IH[OF this]] show ?thesis .
  qed
qed

lemma owns_step_AdditionalZone:
  assumes "CreateSubnetInAdditionalZone env db w = (r, db', w')"
  shows "owns_step db w db' w'"
proof -
  obtain r1 w1 where g: "GetNewZones env db w = (r1, w1)" by (metis surj_pair)
  note s1 = owns_step_GetNewZones[OF g]
  show ?thesis
  proof (cases r1)
    case (Inl e)
    with assms g s1 show ?thesis by (simp add: CreateSubnetInAdditionalZone_def)
  next
    case (Inr zs)
    with assms g have "CreateSubnetInAdditionalZone_loop env (rev zs) db w1 = (r, db', w')"
      by (simp add: CreateSubnetInAdditionalZone_def)
    from owns_step_trans[OF s1 owns_step_AdditionalZone_loop[OF this]] show ?thesis .
  qed
qed

lemma owns_step_fields:
  "subnets_owned_by_db db' = subnets_owned_by_db db \<Longrightarrow> client_subnet db' = client_subnet db \<Longrightarrow>
   is_managed_db db' = is_managed_db db \<Longrightarrow> subnets_used_by_db db' = subnets_used_by_db db \<Longrightarrow>
   owns_step db w db1 w' \<Longrightarrow> owns_step db' w db1 w'"
  by (simp add: owns_step_def)

lemma owns_step_fields':
  "subnets_owned_by_db db' = subnets_owned_by_db db1 \<Longrightarrow> client_subnet db' = client_subnet db1 \<Longrightarrow>
   is_managed_db db' = is_managed_db db1 \<Longrightarrow> subnets_used_by_db db' = subnets_used_by_db db1 \<Longrightarrow>
   owns_step db w db1 w' \<Longrightarrow> owns_step db w db' w'"
  by (simp add: owns_step_def)

lemma owns_step_CreateDbSubnetGroup:
  "CreateDbSubnetGroup env ss db w = (r, db', w') \<Longrightarrow> owns_step db w db' w'"
  by (auto simp: CreateDbSubnetGroup_def Let_def split: prod.splits sum.splits
      intro: owns_step_fields'[OF _ _ _ _ owns_step_IssueCommand] owns_step_IssueCommand)

lemma owns_step_SetupNetworking_subnets:
  assumes "SetupNetworking_subnets env db w = (r, db', w')"
  shows "owns_step db w db' w'"
proof (cases "engine db \<in> set RDS_ENGINES")
  case True
  let ?db0 = "db\<lparr>subnets_used_by_db := subnets_used_by_db db @ [client_subnet db]\<rparr>"
  obtain r0 db0 w0 where a: "CreateSubnetInAdditionalZone env ?db0 w = (r0, db0, w0)"
    by (rule prod_cases3)
  from True assms a have "db' = db0" "w' = w0"
    unfolding SetupNetworking_subnets_def by (cases r0; simp)+
  with owns_step_trans[OF owns_step_used owns_step_AdditionalZone[OF a]] show ?thesis by simp
next
  case False
  show ?thesis
  proof (cases "engine db \<in> set AURORA_ENGINES")
    case True
    with False assms have "CreateSubnetInAllZones_loop env (zones db) db w = (r, db', w')"
      unfolding SetupNetworking_subnets_def CreateSubnetInAllZonesAssumeClientZoneExists_def by simp
    then show ?thesis by (rule owns_step_AllZones_loop)
  next
    case other: False
    with False assms show ?thesis
      unfolding SetupNetworking_subnets_def by (simp add: owns_step_refl)
  qed
qed

lemma owns_step_SetupNetworking:
  assumes "SetupNetworking env db w = (r, db', w')"
  shows "owns_step db w db' w'"
proof -
  obtain r1 db1 w1 where f: "SetupNetworking_subnets env db w = (r1, db1, w1)"
    by (rule prod_cases3)
  note s1 = owns_step_SetupNetworking_subnets[OF f]
  show ?thesis
  proof (cases r1)
    case (Inl e)
    with assms f s1 show ?thesis unfolding SetupNetworking_def by simp
  next
    case (Inr u)
    obtain r2 db2 w2 where g: "CreateDbSubnetGroup env (subnets_used_by_db db1) db1 w1 = (r2, db2, w2)"
      by (rule prod_cases3)
    note s2 = owns_step_trans[OF s1 owns_step_CreateDbSubnetGroup[OF g]]
    show ?thesis
    proof (cases r2)
      case (Inl e)
      with assms f g Inr s2 show ?thesis unfolding SetupNetworking_def by simp
    next
      case r2: (Inr u2)
      obtain r3 w3 where i: "IssueCommand env
          (Ec2AuthorizeSecurityGroupIngress (security_group_id db2) DEFAULT_POSTGRES_PORT (region db2))
          (raise_on_failure_default env) w2 = (r3, w3)" by (rule prod.exhaust)
      note s3 = owns_step_trans[OF s2 owns_step_IssueCommand[OF i]]
      from assms f g Inr r2 i have "db' = db2 \<and> w' = w3"
        unfolding SetupNetworking_def by (cases r3; simp)
      with s3 show ?thesis by simp
    qed
  qed
qed

lemma owns_step_CreateDependencies:
  assumes "CreateDependencies env db w = (r, db', w')"
  shows "owns_step db w db' w'"
proof (cases "is_managed_db db \<and> client_region db = region db")
  case True
  with assms have "SetupNetworking env db w = (r, db', w')"
    by (simp add: CreateDependencies_def AssertClientAndDbInSameRegion_def)
  then show ?thesis by (rule owns_step_SetupNetworking)
next
  case False
  with assms have "db' = db \<and> w' = w"
    by (auto simp: CreateDependencies_def AssertClientAndDbInSameRegion_def split: if_splits)
  then show ?thesis by (simp add: owns_step_refl)
qed

lemma owns_step_ids:
  "owns_step db w (db\<lparr>all_instance_ids := ids\<rparr>) w"
  by (simp add: owns_step_def)

lemma owns_step_CreateAurora_instances:
  "CreateAurora_instances env cid zs db w = (r, db', w') \<Longrightarrow> owns_step db w db' w'"
proof (induction zs arbitrary: db w)
  case Nil
  then show ?case by (simp add: owns_step_refl)
next
  case (Cons z zs)
  let ?iid = "(if z = hd (zones db) then instance_id db else instance_id db @ ''-'' @ z)"
  let ?db1 = "db\<lparr>all_instance_ids := all_instance_ids db @ [?iid]\<rparr>"
  obtain r1 w1 where i: "IssueCommand env (RdsCreateDbInstance ?iid (Some cid) z (region db))
      (raise_on_failure_default env) w = (r1, w1)" by (rule prod.exhaust)
  have s1: "owns_step db w ?db1 w1"
    using owns_step_trans[OF owns_step_ids owns_step_IssueCommand[OF i]] .
  show ?case
  proof (cases r1)
    case (Inl e)
    with Cons.prems i s1 show ?thesis by (simp add: Let_def)
  next
    case (Inr x)
    with Cons.prems i have "CreateAurora_instances env cid zs ?db1 w1 = (r, db', w')"
      by (simp add: Let_def)
    from owns_step_trans[OF s1 Cons.IH[OF this]] show ?thesis .
  qed
qed

lemma owns_step_cluster_id:
  "owns_step db w (db\<lparr>cluster_id := c\<rparr>) w"
  by (simp add: owns_step_def)

lemma owns_step_CreateAwsSqlInstance:
  assumes "CreateAwsSqlInstance env db w = (r, db', w')"
  shows "owns_step db w db' w'"
proof (cases "engine db \<in> set RDS_ENGINES")
  case True
  let ?db1 = "db\<lparr>all_instance_ids := all_instance_ids db @ [instance_id db]\<rparr>"
  obtain r1 w1 where i: "IssueCommand env
      (RdsCreateDbInstance (instance_id db) None (db_spec_zone db) (region db))
      (raise_on_failure_default env) w = (r1, w1)" by (rule prod.exhaust)
  from assms True i have "db' = ?db1 \<and> w' = w1"
    unfolding CreateAwsSqlInstance_def by (cases r1; simp add: Let_def)
  with owns_step_trans[OF owns_step_ids owns_step_IssueCommand[OF i]] show ?thesis by simp
next
  case notrds: False
  show ?thesis
  proof (cases "engine db \<in> set AURORA_ENGINES")
    case False
    with assms notrds show ?thesis
      unfolding CreateAwsSqlInstance_def by (simp add: owns_step_refl)
  next
    case aurora: True
    show ?thesis
    proof (cases "(length (zones db) > 1) \<noteq> high_availability db")
      case True
      with assms notrds aurora show ?thesis
        unfolding CreateAwsSqlInstance_def by (simp add: owns_step_refl)
    next
      case ha: False
      show ?thesis
      proof (cases "spec_zones db")
        case None
        with assms notrds aurora ha show ?thesis
          unfolding CreateAwsSqlInstance_def by (simp add: owns_step_refl)
      next
        case (Some szs)
        show ?thesis
        proof (cases szs)
          case Nil
          with assms notrds aurora ha Some show ?thesis
            unfolding CreateAwsSqlInstance_def by (simp add: owns_step_refl)
        next
          case (Cons z0 zr)
          let ?cid = "''pkb-db-cluster-'' @ run_uri db"
          let ?db1 = "db\<lparr>cluster_id := Some ?cid\<rparr>"
          obtain r1 w1 where i: "IssueCommand env (RdsCreateDbCluster ?cid (region db))
              (raise_on_failure_default env) w = (r1, w1)" by (rule prod.exhaust)
          have s1: "owns_step db w ?db1 w1"
            using owns_step_trans[OF owns_step_cluster_id owns_step_IssueCommand[OF i]] .
          show ?thesis
          proof (cases r1)
            case (Inl e)
            with assms notrds aurora ha Some Cons i have "db' = ?db1 \<and> w' = w1"
              unfolding CreateAwsSqlInstance_def by (simp add: Let_def)
            with s1 show ?thesis by simp
          next
            case (Inr x)
            with assms notrds aurora ha Some Cons i have
              "CreateAurora_instances env ?cid (zones ?db1) ?db1 w1 = (r, db', w')"
              unfolding CreateAwsSqlInstance_def by (simp add: Let_def)
            from owns_step_trans[OF s1 owns_step_CreateAurora_instances[OF this]] show ?thesis .
          qed
        qed
      qed
    qed
  qed
qed

lemma owns_step_Create:
  assumes "Create env db w = (r, db', w')"
  shows "owns_step db w db' w'"
proof (cases "is_managed_db db")
  case True
  with assms show ?thesis by (simp add: Create_def owns_step_CreateAwsSqlInstance)
next
  case False
  with assms show ?thesis
    by (auto simp: Create_def Let_def call_external_def owns_step_def created_subnets_def
        deleted_subnets_def split: sum.splits option.splits)
qed

lemma owns_step_Delete_instances:
  "Delete_instances env db ids w = (r, w') \<Longrightarrow> owns_step db w db w'"
proof (induction ids arbitrary: w)
  case Nil
  then show ?case by (simp add: owns_step_refl)
next
  case (Cons i ids)
  obtain r1 w1 where c: "IssueCommand env (RdsDeleteDbInstance i (region db)) False w = (r1, w1)"
    by (rule prod.exhaust)
  note s1 = owns_step_IssueCommand[OF c, of db]
  show ?case
  proof (cases r1)
    case (Inl e)
    with Cons.prems c s1 show ?thesis by simp
  next
    case (Inr x)
    with Cons.prems c have "Delete_instances env db ids w1 = (r, w')" by simp
    from owns_step_trans[OF s1 Cons.IH[OF this]] show ?thesis .
  qed
qed

lemma owns_step_Delete:
  assumes "Delete env db w = (r, db', w')"
  shows "owns_step db w db' w'"
proof (cases "is_managed_db db")
  case True
  obtain r1 w1 where d: "Delete_instances env db (all_instance_ids db) w = (r1, w1)"
    by (rule prod.exhaust)
  note s1 = owns_step_Delete_instances[OF d]
  show ?thesis
  proof (cases r1)
    case (Inl e)
    with assms True d s1 show ?thesis by (simp add: Delete_def)
  next
    case (Inr u)
    show ?thesis
    proof (cases "cluster_id db")
      case None
      with assms True d Inr s1 show ?thesis by (simp add: Delete_def)
    next
      case (Some cid)
      obtain r2 w2 where c: "IssueCommand env (RdsDeleteDbCluster cid (region db)) False w1 = (r2, w2)"
        by (rule prod.exhaust)
      from assms True d Inr Some c have "db' = db \<and> w' = w2"
        by (cases r2; simp add: Delete_def)
      with owns_step_trans[OF s1 owns_step_IssueCommand[OF c]] show ?thesis by simp
    qed
  qed
next
  case False
  with assms show ?thesis
    by (auto simp: Delete_def Let_def call_external_def owns_step_def created_subnets_def
        deleted_subnets_def split: sum.splits option.splits if_splits)
qed

lemma unmanaged_creates_no_subnet:
  assumes "\<not> is_managed_db db"
    and "CreateDependencies env db w = (r1, db1, w1)" and "Create env db1 w1 = (r2, db2, w2)"
    and "Delete env db2 w2 = (r3, db3, w3)"
  shows "subnets_owned_by_db db3 = subnets_owned_by_db db \<and> \<not> is_managed_db db3 \<and>
         created_subnets (trace w3) = created_subnets (trace w) \<and>
         deleted_subnets (trace w3) = deleted_subnets (trace w)"
proof -
  from assms(1,2) have 1: "db1 = db \<and> w1 = w" by (simp add: CreateDependencies_def)
  from assms(1,3) 1 have 2: "subnets_owned_by_db db2 = subnets_owned_by_db db \<and> \<not> is_managed_db db2 \<and>
      created_subnets (trace w2) = created_subnets (trace w) \<and>
      deleted_subnets (trace w2) = deleted_subnets (trace w)"
    by (auto simp: Create_def Let_def call_external_def created_subnets_def deleted_subnets_def
        split: sum.splits option.splits)
  from 2 assms(4) show ?thesis
    by (auto simp: Delete_def Let_def call_external_def created_subnets_def deleted_subnets_def
        split: sum.splits option.splits if_splits)
qed

lemma Delete_subnets_world:
  "Delete_subnets ss w = w\<lparr>trace := trace w @ map (\<lambda>s. (SubnetDelete s, Returned)) ss\<rparr>"
  by (induction ss arbitrary: w) (simp_all add: subnet_Delete_def)

lemma deleted_subnets_map:
  "deleted_subnets (map (\<lambda>s. (SubnetDelete s, Returned)) ss) = ss"
  by (induction ss) (simp_all add: deleted_subnets_def)

lemma created_subnets_map:
  "created_subnets (map (\<lambda>s. (SubnetDelete s, Returned)) ss) = []"
  by (induction ss) (simp_all add: created_subnets_def)

lemma subnets_of_Command [simp]:
  "deleted_subnets ((Command c f, x) # es) = deleted_subnets es"
  "created_subnets ((Command c f, x) # es) = created_subnets es"
  "deleted_subnets [] = []" "created_subnets [] = []"
  by (simp_all add: deleted_subnets_def created_subnets_def)

lemma DeleteDependencies_managed:
  assumes "is_managed_db db"
  shows "\<exists>w'. DeleteDependencies env db w = (Inr (), db, w') \<and>
              calls w' = calls w @ Teardown_calls db \<and>
              deleted_subnets (trace w') = deleted_subnets (trace w) @ subnets_owned_by_db db \<and>
              created_subnets (trace w') = created_subnets (trace w)"
proof -
  let ?g = "RdsDeleteDbSubnetGroup (db_subnet_group_name db) (region db)"
  let ?w1 = "w\<lparr>trace := trace w @ [(Command ?g False, Exit (issue env (trace w) ?g))],
               clock := clock w + duration (issue env (trace w) ?g)\<rparr>"
  let ?w2 = "Delete_subnets (subnets_owned_by_db db) ?w1"
  have t: "TeardownNetworking env db w = (Inr (), db, ?w2)"
    by (simp add: TeardownNetworking_def IssueCommand_False)
  have c2: "calls ?w2 = calls w @ [Command ?g False] @ map SubnetDelete (subnets_owned_by_db db)"
    by (simp add: Delete_subnets_world calls_def comp_def)
  have d2: "deleted_subnets (trace ?w2) = deleted_subnets (trace w) @ subnets_owned_by_db db"
    by (simp add: Delete_subnets_world deleted_subnets_map)
  have k2: "created_subnets (trace ?w2) = created_subnets (trace w)"
    by (simp add: Delete_subnets_world created_subnets_map)
  show ?thesis
  proof (cases "parameter_group db = None \<or> parameter_group db = Some []")
    case True
    then have "TeardownParameterGroup env db ?w2 = (Inr (), db, ?w2)"
      by (auto simp: TeardownParameterGroup_def)
    moreover from True have "Teardown_calls db =
        [Command ?g False] @ map SubnetDelete (subnets_owned_by_db db)"
      by (auto simp: Teardown_calls_def)
    ultimately show ?thesis using assms t c2 d2 k2
      by (simp add: DeleteDependencies_def)
  next
    case False
    then obtain pg where pg: "parameter_group db = Some pg" "pg \<noteq> []" by auto
    let ?p = "RdsDeleteDbParameterGroup pg (region db)"
    let ?w3 = "?w2\<lparr>trace := trace ?w2 @ [(Command ?p False, Exit (issue env (trace ?w2) ?p))],
               clock := clock ?w2 + duration (issue env (trace ?w2) ?p)\<rparr>"
    from pg have p: "TeardownParameterGroup env db ?w2 = (Inr (), db, ?w3)"
      by (simp add: TeardownParameterGroup_def IssueCommand_False)
    from pg have tc: "Teardown_calls db =
        [Command ?g False] @ map SubnetDelete (subnets_owned_by_db db) @ [Command ?p False]"
      by (simp add: Teardown_calls_def)
    have c3: "calls ?w3 = calls ?w2 @ [Command ?p False]" by (simp add: calls_def)
    have d3: "deleted_subnets (trace ?w3) = deleted_subnets (trace ?w2)"
      by simp
    have k3: "created_subnets (trace ?w3) = created_subnets (trace ?w2)"
      by simp
    have "DeleteDependencies env db w = (Inr (), db, ?w3)"
      using assms t p by (simp add: DeleteDependencies_def)
    moreover have "calls ?w3 = calls w @ Teardown_calls db"
      using c3 c2 tc by simp
    ultimately show ?thesis using d3 d2 k3 k2 by (intro exI[of _ ?w3]) simp
  qed
qed

lemma appends_refl: "appends P w w"
  by (simp add: appends_def)

lemma appends_trans: "appends P w w1 \<Longrightarrow> appends P w1 w2 \<Longrightarrow> appends P w w2"
  unfolding appends_def by (metis append.assoc list_all_append)

lemma appends_calls:
  "appends P w w' \<Longrightarrow> \<exists>cs. calls w' = calls w @ cs \<and> list_all P cs"
proof -
  assume "appends P w w'"
  then obtain es where es: "trace w' = trace w @ es" "list_all (\<lambda>e. P (fst e)) es"
    unfolding appends_def by blast
  then have "calls w' = calls w @ map fst es \<and> list_all P (map fst es)"
    by (simp add: calls_def list_all_iff)
  then show ?thesis by blast
qed

lemma appends_IssueCommand:
  "P (Command cmd flag) \<Longrightarrow> IssueCommand env cmd flag w = (r, w') \<Longrightarrow> appends P w w'"
  by (auto simp: IssueCommand_def Let_def appends_def split: if_splits)

lemma appends_call_external:
  "P (External c) \<Longrightarrow> call_external env c w = (r, w') \<Longrightarrow> appends P w w'"
  by (auto simp: call_external_def Let_def appends_def split: option.splits)

lemma appends_no_created:
  assumes "\<And>s. \<not> P (SubnetCreate s)" "appends P w w'"
  shows "created_subnets (trace w') = created_subnets (trace w)"
proof -
  have "list_all (\<lambda>e. P (fst e)) es \<Longrightarrow> created_subnets es = []" for es
  proof (induction es)
    case Nil
    then show ?case by simp
  next
    case (Cons e es)
    obtain c x where e: "e = (c, x)" by (cases e)
    with Cons.prems assms(1) have "\<forall>s. c \<noteq> SubnetCreate s" by auto
    with e have "created_subnets [e] = []"
      by (cases c) (simp_all add: created_subnets_def)
    moreover from Cons have "created_subnets es = []" by simp
    ultimately show ?case using created_subnets_append[of "[e]" es] by simp
  qed
  with assms(2) show ?thesis by (auto simp: appends_def)
qed

lemma appends_GetNewZones:
  "GetNewZones env db w = (r, w') \<Longrightarrow> appends is_setup_call w w'"
  by (auto simp: GetNewZones_def Let_def appends_def split: option.splits)

lemma appends_CreateSubnetInZone:
  "CreateSubnetInZone env z db w = (r, db', w') \<Longrightarrow> appends is_setup_call w w'"
  by (auto simp: CreateSubnetInZone_def Let_def appends_def split: if_splits)

lemma appends_AllZones_loop:
  "CreateSubnetInAllZones_loop env zs db w = (r, db', w') \<Longrightarrow> appends is_setup_call w w'"
proof (induction zs arbitrary: db w)
  case Nil
  then show ?case by (simp add: appends_refl)
next
  case (Cons z zs)
  show ?case
  proof (cases "z \<noteq> subnet_zone (client_subnet db)")
    case True
    obtain r1 db1 w1 where c: "CreateSubnetInZone env z db w = (r1, db1, w1)"
      by (rule prod_cases3)
    note s1 = appends_CreateSubnetInZone[OF c]
    show ?thesis
    proof (cases r1)
      case (Inl e)
      with Cons.prems True c s1 show ?thesis by simp
    next
      case (Inr x)
      with Cons.prems True c have "CreateSubnetInAllZones_loop env zs db1 w1 = (r, db', w')" by simp
      from appends_trans[OF s1 Cons.IH[OF this]] show ?thesis .
    qed
  next
    case False
    with Cons.prems have "CreateSubnetInAllZones_loop env zs
        (db\<lparr>subnets_used_by_db := subnets_used_by_db db @ [client_subnet db]\<rparr>) w = (r, db', w')"
      by simp
    from Cons.IH[OF this] show ?thesis .
  qed
qed

lemma appends_AdditionalZone_loop:
  "CreateSubnetInAdditionalZone_loop env zs db w = (r, db', w') \<Longrightarrow> appends is_setup_call w w'"
proof (induction zs arbitrary: db w)
  case Nil
  then show ?case by (simp add: appends_refl)
next
  case (Cons z zs)
  obtain r1 db1 w1 where c: "CreateSubnetInZone env z db w = (r1, db1, w1)"
    by (rule prod_cases3)
  note s1 = appends_CreateSubnetInZone[OF c]
  show ?case
  proof (cases r1)
    case (Inr x)
    with Cons.prems c s1 show ?thesis by simp
  next
    case (Inl e)
    with Cons.prems c have "CreateSubnetInAdditionalZone_loop env zs db1 w1 = (r, db', w')" by simp
    from appends_trans[OF s1 Cons.IH[OF this]] show ?thesis .
  qed
qed

lemma appends_AdditionalZone:
  assumes "CreateSubnetInAdditionalZone env db w = (r, db', w')"
  shows "appends is_setup_call w w'"
proof -
  obtain r1 w1 where g: "GetNewZones env db w = (r1, w1)" by (rule prod.exhaust)
  note s1 = appends_GetNewZones[OF g]
  show ?thesis
  proof (cases r1)
    case (Inl e)
    with assms g s1 show ?thesis by (simp add: CreateSubnetInAdditionalZone_def)
  next
    case (Inr zs)
    with assms g have "CreateSubnetInAdditionalZone_loop env (rev zs) db w1 = (r, db', w')"
      by (simp add: CreateSubnetInAdditionalZone_def)
    from appends_trans[OF s1 appends_AdditionalZone_loop[OF this]] show ?thesis .
  qed
qed

lemma appends_SetupNetworking_subnets:
  assumes "SetupNetworking_subnets env db w = (r, db', w')"
  shows "appends is_setup_call w w'"
proof (cases "engine db \<in> set RDS_ENGINES")
  case True
  let ?db0 = "db\<lparr>subnets_used_by_db := subnets_used_by_db db @ [client_subnet db]\<rparr>"
  obtain r0 db0 w0 where a: "CreateSubnetInAdditionalZone env ?db0 w = (r0, db0, w0)"
    by (rule prod_cases3)
  from True assms a have "w' = w0"
    unfolding SetupNetworking_subnets_def by (cases r0; simp)
  with appends_AdditionalZone[OF a] show ?thesis by simp
next
  case False
  show ?thesis
  proof (cases "engine db \<in> set AURORA_ENGINES")
    case True
    with False assms have "CreateSubnetInAllZones_loop env (zones db) db w = (r, db', w')"
      unfolding SetupNetworking_subnets_def CreateSubnetInAllZonesAssumeClientZoneExists_def by simp
    then show ?thesis by (rule appends_AllZones_loop)
  next
    case other: False
    with False assms show ?thesis
      unfolding SetupNetworking_subnets_def by (simp add: appends_refl)
  qed
qed

text \<open>What a successful setup ends with: the subnet group, then the ingress rule.\<close>

lemma SetupNetworking_calls:
  assumes "SetupNetworking env db w = (r, db', w')"
  shows "appends is_setup_call w w' \<and>
         (r = Inr () \<longrightarrow>
            (\<exists>pre. calls w' = calls w @ pre @
               [Command (RdsCreateDbSubnetGroup (''pkb-db-subnet-group-'' @ run_uri db')
                           (subnets_used_by_db db') (region db')) (raise_on_failure_default env),
                Command (Ec2AuthorizeSecurityGroupIngress (Some (vpc_default_security_group_id db'))
                           DEFAULT_POSTGRES_PORT (region db')) (raise_on_failure_default env)]))"
proof -
  obtain r1 db1 w1 where f: "SetupNetworking_subnets env db w = (r1, db1, w1)"
    by (rule prod_cases3)
  note s1 = appends_SetupNetworking_subnets[OF f]
  show ?thesis
  proof (cases r1)
    case (Inl e)
    with assms f s1 show ?thesis unfolding SetupNetworking_def by auto
  next
    case (Inr u)
    let ?name = "''pkb-db-subnet-group-'' @ run_uri db1"
    let ?g = "RdsCreateDbSubnetGroup ?name (subnets_used_by_db db1) (region db1)"
    obtain r2 w2 where g: "IssueCommand env ?g (raise_on_failure_default env) w1 = (r2, w2)"
      by (rule prod.exhaust)
    have s2: "appends is_setup_call w w2"
      using appends_trans[OF s1 appends_IssueCommand[OF _ g]] by simp
    show ?thesis
    proof (cases r2)
      case (Inl e)
      with assms f g Inr s2 show ?thesis
        unfolding SetupNetworking_def CreateDbSubnetGroup_def by (auto simp: Let_def)
    next
      case r2: (Inr x2)
      let ?db2 = "db1\<lparr>db_subnet_group_name := Some ?name,
                       security_group_id := Some (vpc_default_security_group_id db1)\<rparr>"
      let ?a = "Ec2AuthorizeSecurityGroupIngress (security_group_id ?db2) DEFAULT_POSTGRES_PORT (region ?db2)"
      obtain r3 w3 where i: "IssueCommand env ?a (raise_on_failure_default env) w2 = (r3, w3)"
        by (rule prod.exhaust)
      have s3: "appends is_setup_call w w3"
        using appends_trans[OF s2 appends_IssueCommand[OF _ i]] by simp
      from assms f g Inr r2 i have res: "db' = ?db2 \<and> w' = w3"
        unfolding SetupNetworking_def CreateDbSubnetGroup_def by (cases r3; simp add: Let_def)
      from appends_calls[OF s1] obtain pre where pre: "calls w1 = calls w @ pre" by blast
      have c2: "calls w2 = calls w1 @ [Command ?g (raise_on_failure_default env)]"
        using IssueCommand_calls[OF g] .
      have c3: "calls w3 = calls w2 @ [Command ?a (raise_on_failure_default env)]"
        using IssueCommand_calls[OF i] .
      from res s3 pre c2 c3 show ?thesis by (intro conjI impI exI[of _ pre]) simp_all
    qed
  qed
qed

lemma CreateDependencies_calls:
  assumes "CreateDependencies env db w = (r, db', w')"
  shows "appends is_setup_call w w' \<and>
         (is_managed_db db \<and> r = Inr () \<longrightarrow>
            (\<exists>pre. calls w' = calls w @ pre @
               [Command (RdsCreateDbSubnetGroup (''pkb-db-subnet-group-'' @ run_uri db')
                           (subnets_used_by_db db') (region db')) (raise_on_failure_default env),
                Command (Ec2AuthorizeSecurityGroupIngress (Some (vpc_default_security_group_id db'))
                           DEFAULT_POSTGRES_PORT (region db')) (raise_on_failure_default env)]))"
proof (cases "is_managed_db db \<and> client_region db = region db")
  case True
  with assms have "SetupNetworking env db w = (r, db', w')"
    by (simp add: CreateDependencies_def AssertClientAndDbInSameRegion_def)
  from SetupNetworking_calls[OF this] show ?thesis by simp
next
  case False
  with assms have "db' = db \<and> w' = w \<and> (is_managed_db db \<longrightarrow> r \<noteq> Inr ())"
    by (auto simp: CreateDependencies_def AssertClientAndDbInSameRegion_def split: if_splits)
  then show ?thesis by (simp add: appends_refl)
qed

lemma appends_CreateAurora_instances:
  "CreateAurora_instances env cid zs db w = (r, db', w') \<Longrightarrow> appends is_create_call w w'"
proof (induction zs arbitrary: db w)
  case Nil
  then show ?case by (simp add: appends_refl)
next
  case (Cons z zs)
  let ?iid = "(if z = hd (zones db) then instance_id db else instance_id db @ ''-'' @ z)"
  let ?db1 = "db\<lparr>all_instance_ids := all_instance_ids db @ [?iid]\<rparr>"
  obtain r1 w1 where i: "IssueCommand env (RdsCreateDbInstance ?iid (Some cid) z (region db))
      (raise_on_failure_default env) w = (r1, w1)" by (rule prod.exhaust)
  have s1: "appends is_create_call w w1"
    using appends_IssueCommand[OF _ i] by simp
  show ?case
  proof (cases r1)
    case (Inl e)
    with Cons.prems i s1 show ?thesis by (simp add: Let_def)
  next
    case (Inr x)
    with Cons.prems i have "CreateAurora_instances env cid zs ?db1 w1 = (r, db', w')"
      by (simp add: Let_def)
    from appends_trans[OF s1 Cons.IH[OF this]] show ?thesis .
  qed
qed

lemma appends_CreateAwsSqlInstance:
  assumes "CreateAwsSqlInstance env db w = (r, db', w')"
  shows "appends is_create_call w w'"
proof (cases "engine db \<in> set RDS_ENGINES")
  case True
  obtain r1 w1 where i: "IssueCommand env
      (RdsCreateDbInstance (instance_id db) None (db_spec_zone db) (region db))
      (raise_on_failure_default env) w = (r1, w1)" by (rule prod.exhaust)
  from assms True i have "w' = w1"
    unfolding CreateAwsSqlInstance_def by (cases r1; simp add: Let_def)
  with appends_IssueCommand[OF _ i, of is_create_call] show ?thesis by simp
next
  case notrds: False
  show ?thesis
  proof (cases "engine db \<in> set AURORA_ENGINES")
    case False
    with assms notrds show ?thesis
      unfolding CreateAwsSqlInstance_def by (simp add: appends_refl)
  next
    case aurora: True
    show ?thesis
    proof (cases "(length (zones db) > 1) \<noteq> high_availability db")
      case True
      with assms notrds aurora show ?thesis
        unfolding CreateAwsSqlInstance_def by (simp add: appends_refl)
    next
      case ha: False
      show ?thesis
      proof (cases "spec_zones db")
        case None
        with assms notrds aurora ha show ?thesis
          unfolding CreateAwsSqlInstance_def by (simp add: appends_refl)
      next
        case (Some szs)
        show ?thesis
        proof (cases szs)
          case Nil
          with assms notrds aurora ha Some show ?thesis
            unfolding CreateAwsSqlInstance_def by (simp add: appends_refl)
        next
          case (Cons z0 zr)
          let ?cid = "''pkb-db-cluster-'' @ run_uri db"
          let ?db1 = "db\<lparr>cluster_id := Some ?cid\<rparr>"
          obtain r1 w1 where i: "IssueCommand env (RdsCreateDbCluster ?cid (region db))
              (raise_on_failure_default env) w = (r1, w1)" by (rule prod.exhaust)
          have s1: "appends is_create_call w w1"
            using appends_IssueCommand[OF _ i] by simp
          show ?thesis
          proof (cases r1)
            case (Inl e)
            with assms notrds aurora ha Some Cons i have "w' = w1"
              unfolding CreateAwsSqlInstance_def by (simp add: Let_def)
            with s1 show ?thesis by simp
          next
            case (Inr x)
            with assms notrds aurora ha Some Cons i have
              "CreateAurora_instances env ?cid (zones ?db1) ?db1 w1 = (r, db', w')"
              unfolding CreateAwsSqlInstance_def by (simp add: Let_def)
            from appends_trans[OF s1 appends_CreateAurora_instances[OF this]] show ?thesis .
          qed
        qed
      qed
    qed
  qed
qed

lemma appends_Create:
  assumes "Create env db w = (r, db', w')"
  shows "appends is_create_call w w'"
proof (cases "is_managed_db db")
  case True
  with assms show ?thesis by (simp add: Create_def appends_CreateAwsSqlInstance)
next
  case False
  with assms show ?thesis
    by (auto simp: Create_def Let_def call_external_def appends_def
        split: sum.splits option.splits)
qed

lemma appends_Delete_instances:
  "Delete_instances env db ids w = (r, w') \<Longrightarrow> appends is_delete_call w w'"
proof (induction ids arbitrary: w)
  case Nil
  then show ?case by (simp add: appends_refl)
next
  case (Cons i ids)
  obtain r1 w1 where c: "IssueCommand env (RdsDeleteDbInstance i (region db)) False w = (r1, w1)"
    by (rule prod.exhaust)
  have s1: "appends is_delete_call w w1" using appends_IssueCommand[OF _ c] by simp
  show ?case
  proof (cases r1)
    case (Inl e)
    with Cons.prems c s1 show ?thesis by simp
  next
    case (Inr x)
    with Cons.prems c have "Delete_instances env db ids w1 = (r, w')" by simp
    from appends_trans[OF s1 Cons.IH[OF this]] show ?thesis .
  qed
qed

lemma appends_Delete:
  assumes "Delete env db w = (r, db', w')"
  shows "appends is_delete_call w w'"
proof (cases "is_managed_db db")
  case True
  obtain r1 w1 where d: "Delete_instances env db (all_instance_ids db) w = (r1, w1)"
    by (rule prod.exhaust)
  note s1 = appends_Delete_instances[OF d]
  show ?thesis
  proof (cases r1)
    case (Inl e)
    with assms True d s1 show ?thesis by (simp add: Delete_def)
  next
    case (Inr u)
    show ?thesis
    proof (cases "cluster_id db")
      case None
      with assms True d Inr s1 show ?thesis by (simp add: Delete_def)
    next
      case (Some cid)
      obtain r2 w2 where c: "IssueCommand env (RdsDeleteDbCluster cid (region db)) False w1 = (r2, w2)"
        by (rule prod.exhaust)
      from assms True d Inr Some c have "w' = w2"
        by (cases r2; simp add: Delete_def)
      with appends_trans[OF s1 appends_IssueCommand[OF _ c]] show ?thesis by simp
    qed
  qed
next
  case False
  with assms show ?thesis
    by (auto simp: Delete_def Let_def call_external_def appends_def
        split: sum.splits option.splits if_splits)
qed

lemma RDS_client_subnet_used:
  assumes "engine db \<in> set RDS_ENGINES" "SetupNetworking_subnets env db w = (r, db', w')"
  shows "client_subnet db \<in> set (subnets_used_by_db db')"
proof -
  let ?db0 = "db\<lparr>subnets_used_by_db := subnets_used_by_db db @ [client_subnet db]\<rparr>"
  obtain r0 db0 w0 where a: "CreateSubnetInAdditionalZone env ?db0 w = (r0, db0, w0)"
    by (rule prod_cases3)
  from assms a have "db' = db0"
    unfolding SetupNetworking_subnets_def by (cases r0; simp)
  moreover from owns_step_AdditionalZone[OF a] have "set (subnets_used_by_db ?db0) \<subseteq> set (subnets_used_by_db db0)"
    unfolding owns_step_def by blast
  ultimately show ?thesis by auto
qed

lemma RDS_client_subnet_used_deps:
  assumes "is_managed_db db" "client_region db = region db" "engine db \<in> set RDS_ENGINES"
    and "CreateDependencies env db w = (r, db', w')"
  shows "client_subnet db \<in> set (subnets_used_by_db db')"
proof -
  from assms have sn: "SetupNetworking env db w = (r, db', w')"
    by (simp add: CreateDependencies_def AssertClientAndDbInSameRegion_def)
  obtain r1 db1 w1 where f: "SetupNetworking_subnets env db w = (r1, db1, w1)"
    by (rule prod_cases3)
  note u1 = RDS_client_subnet_used[OF assms(3) f]
  show ?thesis
  proof (cases r1)
    case (Inl e)
    with sn f u1 show ?thesis unfolding SetupNetworking_def by simp
  next
    case (Inr u)
    obtain r2 db2 w2 where g: "CreateDbSubnetGroup env (subnets_used_by_db db1) db1 w1 = (r2, db2, w2)"
      by (rule prod_cases3)
    from owns_step_CreateDbSubnetGroup[OF g] u1 have u2: "client_subnet db \<in> set (subnets_used_by_db db2)"
      unfolding owns_step_def by blast
    obtain r3 w3 where i: "IssueCommand env
          (Ec2AuthorizeSecurityGroupIngress (security_group_id db2) DEFAULT_POSTGRES_PORT (region db2))
          (raise_on_failure_default env) w2 = (r3, w3)" by (rule prod.exhaust)
    from sn f g Inr i have "db' = db2"
      unfolding SetupNetworking_def by (cases r2; cases r3; simp)
    with u2 show ?thesis by simp
  qed
qed

lemmas example_defs =
  new_db_def init_def env_available_def env_nothing_def world0_def result_of_json_def
  failed_result_def

lemma CreateDependencies_example:
  "\<exists>r1 db1 w1. CreateDependencies env_available (new_db True MYSQL) world0 = (r1, db1, w1) \<and>
      subnets_owned_by_db db1 = [AwsSubnet 1 ''us-east-1b'']"
  by (simp add: example_defs CreateDependencies_def AssertClientAndDbInSameRegion_def
      SetupNetworking_def SetupNetworking_subnets_def RDS_ENGINES_def
      CreateSubnetInAdditionalZone_def GetNewZones_def CreateSubnetInZone_def
      CreateDbSubnetGroup_def IssueCommand_def Let_def)

lemma Resource_Create_example:
  "calls (snd (snd (Resource_Create env_available (new_db True MYSQL) world0))) =
     [GetZonesInRegion ''us-east-1'',
      SubnetCreate (AwsSubnet 1 ''us-east-1b''),
      Command (RdsCreateDbSubnetGroup ''pkb-db-subnet-group-run1''
                 [AwsSubnet 0 ''us-east-1a'', AwsSubnet 1 ''us-east-1b''] ''us-east-1'') True,
      Command (Ec2AuthorizeSecurityGroupIngress (Some ''sg-0'') 5432 ''us-east-1'') True,
      Command (RdsCreateDbInstance ''pkb-db-instance-run1'' None ''us-east-1a'' ''us-east-1'') True]"
  by (simp add: example_defs Resource_Create_def CreateDependencies_def
      AssertClientAndDbInSameRegion_def SetupNetworking_def SetupNetworking_subnets_def
      RDS_ENGINES_def CreateSubnetInAdditionalZone_def GetNewZones_def CreateSubnetInZone_def
      CreateDbSubnetGroup_def IssueCommand_def Let_def Create_def CreateAwsSqlInstance_def
      calls_def DEFAULT_POSTGRES_PORT_def)

text \<open>
  C5. Deleting a managed database and tearing down its dependencies raises nothing and
  attempts every removal, whatever the provider answers to each command (every command
  may fail): \<^verbatim>\<open>_Delete\<close> issues a delete command for each instance and for the cluster,
  \<^verbatim>\<open>_DeleteDependencies\<close> one for the subnet group, a \<^verbatim>\<open>Delete()\<close> for each owned subnet
  and a delete command for the parameter group, all with \<^verbatim>\<open>raise_on_failure=False\<close>. For
  an unmanaged database the two helpers of \<^verbatim>\<open>_Delete\<close>, which are not in the sources, are
  assumed to return, and there are no dependencies to tear down.
\<close>

theorem teardown_attempts_everything:
  assumes "is_managed_db db \<or>
           (\<forall>tr. external env tr DisallowAllPorts \<noteq> None \<and>
                 external env tr PrintUnmanagedDbStats \<noteq> None)"
  shows "\<exists>db1 w1 w2.
           Delete env db w = (Inr (), db1, w1) \<and>
           DeleteDependencies env db1 w1 = (Inr (), db1, w2) \<and>
           (if is_managed_db db
            then db1 = db \<and> calls w2 = calls w @ Delete_calls db @ Teardown_calls db
            else calls w2 = calls w @
                   (if has_firewall db then [External DisallowAllPorts] else []) @
                   [External PrintUnmanagedDbStats])"
proof (cases "is_managed_db db")
  case True
  obtain w1 where 1: "Delete env db w = (Inr (), db, w1)" "calls w1 = calls w @ Delete_calls db"
    using Delete_managed[OF True] by blast
  obtain w2 where 2: "DeleteDependencies env db w1 = (Inr (), db, w2)"
    "calls w2 = calls w1 @ Teardown_calls db"
    using DeleteDependencies_managed[OF True] by blast
  from True 1 2 show ?thesis by simp
next
  case False
  let ?db1 = "db\<lparr>unmanaged_db_exists := Some False\<rparr>"
  from False assms have ext:
    "\<forall>tr. external env tr DisallowAllPorts \<noteq> None"
    "\<forall>tr. external env tr PrintUnmanagedDbStats \<noteq> None"
    by auto
  obtain w1 where 1: "Delete env db w = (Inr (), ?db1, w1)"
    using Delete_unmanaged[OF False ext] by blast
  have c: "calls w1 = calls w @ (if has_firewall db then [External DisallowAllPorts] else []) @
                   [External PrintUnmanagedDbStats]"
    using 1 False
    by (auto simp: Delete_def Let_def call_external_def calls_def split: option.splits if_splits)
  have 2: "DeleteDependencies env ?db1 w1 = (Inr (), ?db1, w1)"
    using False by (simp add: DeleteDependencies_def)
  from False 1 2 c show ?thesis by simp
qed

theorem teardown_attempts_everything_witness:
  "is_managed_db aurora_db_in_use \<and>
   retcode (issue env_nothing [] (RdsDeleteDbInstance ''pkb-db-instance-run1'' ''us-east-1'')) \<noteq> 0 \<and>
   (\<exists>w1 w2.
      Delete env_nothing aurora_db_in_use world0 = (Inr (), aurora_db_in_use, w1) \<and>
      DeleteDependencies env_nothing aurora_db_in_use w1 = (Inr (), aurora_db_in_use, w2) \<and>
      calls w2 =
        [Command (RdsDeleteDbInstance ''pkb-db-instance-run1'' ''us-east-1'') False,
         Command (RdsDeleteDbInstance ''pkb-db-instance-run1-us-east-1b'' ''us-east-1'') False,
         Command (RdsDeleteDbCluster ''pkb-db-cluster-run1'' ''us-east-1'') False,
         Command (RdsDeleteDbSubnetGroup (Some ''pkb-db-subnet-group-run1'') ''us-east-1'') False,
         SubnetDelete (AwsSubnet 1 ''us-east-1b''),
         Command (RdsDeleteDbParameterGroup ''pkb-parameter-group-run1'' ''us-east-1'') False])"
proof -
  have m: "is_managed_db aurora_db_in_use" by (simp add: aurora_db_in_use_def example_defs)
  have f: "retcode (issue env_nothing [] (RdsDeleteDbInstance ''pkb-db-instance-run1'' ''us-east-1'')) \<noteq> 0"
    by (simp add: example_defs)
  have d: "Delete_calls aurora_db_in_use =
        [Command (RdsDeleteDbInstance ''pkb-db-instance-run1'' ''us-east-1'') False,
         Command (RdsDeleteDbInstance ''pkb-db-instance-run1-us-east-1b'' ''us-east-1'') False,
         Command (RdsDeleteDbCluster ''pkb-db-cluster-run1'' ''us-east-1'') False]"
    by (simp add: Delete_calls_def aurora_db_in_use_def example_defs)
  have t: "Teardown_calls aurora_db_in_use =
        [Command (RdsDeleteDbSubnetGroup (Some ''pkb-db-subnet-group-run1'') ''us-east-1'') False,
         SubnetDelete (AwsSubnet 1 ''us-east-1b''),
         Command (RdsDeleteDbParameterGroup ''pkb-parameter-group-run1'' ''us-east-1'') False]"
    by (simp add: Teardown_calls_def aurora_db_in_use_def example_defs)
  have c0: "calls world0 = []" by (simp add: calls_def world0_def)
  from teardown_attempts_everything[of aurora_db_in_use env_nothing world0] m f d t c0
  show ?thesis by auto
qed

text \<open>
  C6. In the create operation every call that sets up networking (the subnets, the
  subnet group, the ingress rule) comes before every call that creates the cluster or
  an instance, and no instance is created unless the subnet group and the ingress rule
  have been set up. In the delete operation of a managed database the delete commands
  for the instances and the cluster come first, then the subnet group, the owned
  subnets and the parameter group.
\<close>

theorem dependencies_first_created_last_deleted:
  "(Resource_Create env db w = (r, db', w') \<longrightarrow>
      (\<exists>deps cr. calls w' = calls w @ deps @ cr \<and>
         list_all is_setup_call deps \<and> list_all is_create_call cr \<and>
         (is_managed_db db \<and> cr \<noteq> [] \<longrightarrow>
            (\<exists>pre name ss sg rg. deps = pre @
               [Command (RdsCreateDbSubnetGroup name ss rg) (raise_on_failure_default env),
                Command (Ec2AuthorizeSecurityGroupIngress (Some sg) DEFAULT_POSTGRES_PORT rg)
                  (raise_on_failure_default env)])))) \<and>
   (is_managed_db db \<longrightarrow>
      (\<exists>w''. Resource_Delete env db w = (Inr (), db, w'') \<and>
             calls w'' = calls w @ Delete_calls db @ Teardown_calls db)) \<and>
   (is_setup_call c \<longrightarrow> \<not> is_create_call c)"
proof (intro conjI impI)
  assume rc: "Resource_Create env db w = (r, db', w')"
  obtain r1 db1 w1 where d: "CreateDependencies env db w = (r1, db1, w1)" by (rule prod_cases3)
  note dc = CreateDependencies_calls[OF d]
  from dc appends_calls obtain deps where deps: "calls w1 = calls w @ deps" "list_all is_setup_call deps"
    by blast
  show "\<exists>deps cr. calls w' = calls w @ deps @ cr \<and>
         list_all is_setup_call deps \<and> list_all is_create_call cr \<and>
         (is_managed_db db \<and> cr \<noteq> [] \<longrightarrow>
            (\<exists>pre name ss sg rg. deps = pre @
               [Command (RdsCreateDbSubnetGroup name ss rg) (raise_on_failure_default env),
                Command (Ec2AuthorizeSecurityGroupIngress (Some sg) DEFAULT_POSTGRES_PORT rg)
                  (raise_on_failure_default env)]))"
  proof (cases r1)
    case (Inl e)
    with rc d have "w' = w1" by (simp add: Resource_Create_def)
    with deps show ?thesis by (intro exI[of _ deps] exI[of _ "[]"]) simp
  next
    case (Inr u)
    with rc d have c: "Create env db1 w1 = (r, db', w')" by (simp add: Resource_Create_def)
    from appends_calls[OF appends_Create[OF c]] obtain cr where
      cr: "calls w' = calls w1 @ cr" "list_all is_create_call cr" by blast
    have "\<exists>pre name ss sg rg. deps = pre @
               [Command (RdsCreateDbSubnetGroup name ss rg) (raise_on_failure_default env),
                Command (Ec2AuthorizeSecurityGroupIngress (Some sg) DEFAULT_POSTGRES_PORT rg)
                  (raise_on_failure_default env)]" if "is_managed_db db"
    proof -
      from dc that Inr obtain pre where "calls w1 = calls w @ pre @
               [Command (RdsCreateDbSubnetGroup (''pkb-db-subnet-group-'' @ run_uri db1)
                           (subnets_used_by_db db1) (region db1)) (raise_on_failure_default env),
                Command (Ec2AuthorizeSecurityGroupIngress (Some (vpc_default_security_group_id db1))
                           DEFAULT_POSTGRES_PORT (region db1)) (raise_on_failure_default env)]"
        by auto
      with deps(1) show ?thesis by auto
    qed
    with deps cr show ?thesis by (intro exI[of _ deps] exI[of _ cr]) simp
  qed
next
  assume m: "is_managed_db db"
  obtain w1 where 1: "Delete env db w = (Inr (), db, w1)" "calls w1 = calls w @ Delete_calls db"
    using Delete_managed[OF m] by blast
  obtain w2 where 2: "DeleteDependencies env db w1 = (Inr (), db, w2)"
    "calls w2 = calls w1 @ Teardown_calls db"
    using DeleteDependencies_managed[OF m] by blast
  from 1 2 show "\<exists>w''. Resource_Delete env db w = (Inr (), db, w'') \<and>
             calls w'' = calls w @ Delete_calls db @ Teardown_calls db"
    by (simp add: Resource_Delete_def)
next
  assume "is_setup_call c"
  then show "\<not> is_create_call c"
    by (induction c rule: is_setup_call.induct) simp_all
qed

theorem dependencies_first_created_last_deleted_witness:
  "is_managed_db (new_db True MYSQL) \<and> is_managed_db aurora_db_in_use \<and>
   calls (snd (snd (Resource_Create env_available (new_db True MYSQL) world0))) =
     [GetZonesInRegion ''us-east-1'',
      SubnetCreate (AwsSubnet 1 ''us-east-1b''),
      Command (RdsCreateDbSubnetGroup ''pkb-db-subnet-group-run1''
                 [AwsSubnet 0 ''us-east-1a'', AwsSubnet 1 ''us-east-1b''] ''us-east-1'') True,
      Command (Ec2AuthorizeSecurityGroupIngress (Some ''sg-0'') 5432 ''us-east-1'') True,
      Command (RdsCreateDbInstance ''pkb-db-instance-run1'' None ''us-east-1a'' ''us-east-1'') True] \<and>
   (\<exists>deps cr. calls (snd (snd (Resource_Create env_available (new_db True MYSQL) world0))) =
        calls world0 @ deps @ cr \<and> list_all is_setup_call deps \<and> list_all is_create_call cr) \<and>
   (\<exists>w''. Resource_Delete env_nothing aurora_db_in_use world0 = (Inr (), aurora_db_in_use, w'') \<and>
      calls w'' =
        [Command (RdsDeleteDbInstance ''pkb-db-instance-run1'' ''us-east-1'') False,
         Command (RdsDeleteDbInstance ''pkb-db-instance-run1-us-east-1b'' ''us-east-1'') False,
         Command (RdsDeleteDbCluster ''pkb-db-cluster-run1'' ''us-east-1'') False,
         Command (RdsDeleteDbSubnetGroup (Some ''pkb-db-subnet-group-run1'') ''us-east-1'') False,
         SubnetDelete (AwsSubnet 1 ''us-east-1b''),
         Command (RdsDeleteDbParameterGroup ''pkb-parameter-group-run1'' ''us-east-1'') False])"
proof -
  let ?rc = "Resource_Create env_available (new_db True MYSQL) world0"
  have m1: "is_managed_db (new_db True MYSQL)" by (simp add: example_defs)
  have m2: "is_managed_db aurora_db_in_use" by (simp add: aurora_db_in_use_def example_defs)
  have h: "?rc = (fst ?rc, fst (snd ?rc), snd (snd ?rc))" by simp
  have d: "Delete_calls aurora_db_in_use =
        [Command (RdsDeleteDbInstance ''pkb-db-instance-run1'' ''us-east-1'') False,
         Command (RdsDeleteDbInstance ''pkb-db-instance-run1-us-east-1b'' ''us-east-1'') False,
         Command (RdsDeleteDbCluster ''pkb-db-cluster-run1'' ''us-east-1'') False]"
    by (simp add: Delete_calls_def aurora_db_in_use_def example_defs)
  have t: "Teardown_calls aurora_db_in_use =
        [Command (RdsDeleteDbSubnetGroup (Some ''pkb-db-subnet-group-run1'') ''us-east-1'') False,
         SubnetDelete (AwsSubnet 1 ''us-east-1b''),
         Command (RdsDeleteDbParameterGroup ''pkb-parameter-group-run1'' ''us-east-1'') False]"
    by (simp add: Teardown_calls_def aurora_db_in_use_def example_defs)
  have c0: "calls world0 = []" by (simp add: calls_def world0_def)
  from dependencies_first_created_last_deleted[of env_available "new_db True MYSQL" world0
         "fst ?rc" "fst (snd ?rc)" "snd (snd ?rc)" "SubnetCreate (AwsSubnet 1 ''us-east-1b'')"] h
  have A: "\<exists>deps cr. calls (snd (snd ?rc)) = calls world0 @ deps @ cr \<and>
             list_all is_setup_call deps \<and> list_all is_create_call cr"
    by blast
  from dependencies_first_created_last_deleted[of env_nothing aurora_db_in_use world0
         "fst (Resource_Create env_nothing aurora_db_in_use world0)"
         "fst (snd (Resource_Create env_nothing aurora_db_in_use world0))"
         "snd (snd (Resource_Create env_nothing aurora_db_in_use world0))"
         "SubnetCreate (AwsSubnet 1 ''us-east-1b'')"] m2
  have B: "\<exists>w''. Resource_Delete env_nothing aurora_db_in_use world0 = (Inr (), aurora_db_in_use, w'') \<and>
             calls w'' = calls world0 @ Delete_calls aurora_db_in_use @ Teardown_calls aurora_db_in_use"
    by blast
  from m1 m2 A B Resource_Create_example d t c0 show ?thesis by simp
qed

text \<open>
  C7. Run the four hooks in lifecycle order on a new object, whatever each of them
  returns: the subnets the teardown deletes are exactly the subnets whose creation by
  this object returned normally, which are exactly the owned list. The client's subnet
  is a different object from every one of them: it is never owned and never deleted,
  though for an RDS engine it is among the subnets the database uses.
\<close>

theorem teardown_deletes_exactly_owned_subnets:
  assumes "CreateDependencies env db w = (r1, db1, w1)"
    and "Create env db1 w1 = (r2, db2, w2)"
    and "Delete env db2 w2 = (r3, db3, w3)"
    and "DeleteDependencies env db3 w3 = (r4, db4, w4)"
    and "subnets_owned_by_db db = []"
    and "subnet_ref (client_subnet db) < next_ref w"
  shows "subnets_owned_by_db db4 = subnets_owned_by_db db1 \<and>
         created_subnets (trace w4) = created_subnets (trace w) @ subnets_owned_by_db db1 \<and>
         deleted_subnets (trace w4) = deleted_subnets (trace w) @ subnets_owned_by_db db1 \<and>
         client_subnet db \<notin> set (subnets_owned_by_db db1) \<and>
         (if is_managed_db db \<and> client_region db = region db \<and> engine db \<in> set RDS_ENGINES
          then client_subnet db \<in> set (subnets_used_by_db db1) else True)"
proof -
  note s1 = owns_step_CreateDependencies[OF assms(1)]
  note s13 = owns_step_trans[OF owns_step_Create[OF assms(2)] owns_step_Delete[OF assms(3)]]
  from s1 assms(5) have o1: "created_subnets (trace w1) = created_subnets (trace w) @ subnets_owned_by_db db1"
    and d1: "deleted_subnets (trace w1) = deleted_subnets (trace w)"
    and f1: "list_all (\<lambda>s. next_ref w \<le> subnet_ref s) (subnets_owned_by_db db1)"
    and m1: "is_managed_db db1 = is_managed_db db"
    by (auto simp: owns_step_def)
  have cl: "client_subnet db \<notin> set (subnets_owned_by_db db1)"
    using f1 assms(6) by (auto simp: list_all_iff)
  have used: "client_subnet db \<in> set (subnets_used_by_db db1)"
    if "is_managed_db db" "client_region db = region db" "engine db \<in> set RDS_ENGINES"
    using RDS_client_subnet_used_deps[OF that assms(1)] .
  show ?thesis
  proof (cases "is_managed_db db")
    case True
    from s13 obtain new where n:
      "subnets_owned_by_db db3 = subnets_owned_by_db db1 @ new"
      "created_subnets (trace w3) = created_subnets (trace w1) @ new"
      "deleted_subnets (trace w3) = deleted_subnets (trace w1)"
      "is_managed_db db3 = is_managed_db db1"
      by (auto simp: owns_step_def)
    from True m1 n(4) have m3: "is_managed_db db3" by simp
    from DeleteDependencies_managed[OF m3, of env w3] assms(4) have t:
      "db4 = db3" "deleted_subnets (trace w4) = deleted_subnets (trace w3) @ subnets_owned_by_db db3"
      "created_subnets (trace w4) = created_subnets (trace w3)"
      by auto
    have "created_subnets (trace w2) = created_subnets (trace w1)"
      by (rule appends_no_created[OF _ appends_Create[OF assms(2)]]) simp
    moreover have "created_subnets (trace w3) = created_subnets (trace w2)"
      by (rule appends_no_created[OF _ appends_Delete[OF assms(3)]]) simp
    ultimately have "new = []" using n(2) by simp
    with n t o1 d1 cl used show ?thesis by auto
  next
    case False
    with assms(1) have e: "db1 = db" "w1 = w" by (auto simp: CreateDependencies_def)
    from unmanaged_creates_no_subnet[OF False assms(1,2,3)] have u:
      "subnets_owned_by_db db3 = subnets_owned_by_db db" "\<not> is_managed_db db3"
      "created_subnets (trace w3) = created_subnets (trace w)"
      "deleted_subnets (trace w3) = deleted_subnets (trace w)" by auto
    from u(2) assms(4) have "db4 = db3" "w4 = w3" by (auto simp: DeleteDependencies_def)
    with u e assms(5) False show ?thesis by simp
  qed
qed

theorem teardown_deletes_exactly_owned_subnets_witness:
  "subnets_owned_by_db (new_db True MYSQL) = [] \<and>
   subnet_ref (client_subnet (new_db True MYSQL)) < next_ref world0 \<and>
   (case hooks_in_order env_available (new_db True MYSQL) world0 of
      (db1, db4, w4) \<Rightarrow>
        subnets_owned_by_db db1 = [AwsSubnet 1 ''us-east-1b''] \<and>
        subnets_owned_by_db db4 = [AwsSubnet 1 ''us-east-1b''] \<and>
        created_subnets (trace w4) = [AwsSubnet 1 ''us-east-1b''] \<and>
        deleted_subnets (trace w4) = [AwsSubnet 1 ''us-east-1b''] \<and>
        client_subnet (new_db True MYSQL) \<in> set (subnets_used_by_db db1))"
proof -
  let ?db = "new_db True MYSQL"
  obtain r1 db1 w1 where 1: "CreateDependencies env_available ?db world0 = (r1, db1, w1)"
    and o: "subnets_owned_by_db db1 = [AwsSubnet 1 ''us-east-1b'']"
    using CreateDependencies_example by blast
  obtain r2 db2 w2 where 2: "Create env_available db1 w1 = (r2, db2, w2)" by (rule prod_cases3)
  obtain r3 db3 w3 where 3: "Delete env_available db2 w2 = (r3, db3, w3)" by (rule prod_cases3)
  obtain r4 db4 w4 where 4: "DeleteDependencies env_available db3 w3 = (r4, db4, w4)"
    by (rule prod_cases3)
  have a: "subnets_owned_by_db ?db = []" by (simp add: example_defs)
  have b: "subnet_ref (client_subnet ?db) < next_ref world0" by (simp add: example_defs)
  have c: "is_managed_db ?db \<and> client_region ?db = region ?db \<and> engine ?db \<in> set RDS_ENGINES"
    by (simp add: example_defs RDS_ENGINES_def)
  have e: "created_subnets (trace world0) = [] \<and> deleted_subnets (trace world0) = []"
    by (simp add: world0_def)
  from teardown_deletes_exactly_owned_subnets[OF 1 2 3 4 a b] a b c e o
  show ?thesis by (simp add: hooks_in_order_def 1 2 3 4)
qed

subsection \<open>After creation and failover\<close>

lemma loop_times_out_at:
  assumes nr: "\<forall>tr. poll_result_of (issue env tr (RdsDescribeDbInstances iid (region db))) \<in> {NotReady, NoAnswer}"
    and dur: "\<forall>tr c. duration (issue env tr c) \<le> D"
    and bound: "timeout + D + 5 \<le> 86400"
  shows "start \<le> clock w \<Longrightarrow> clock w - start < 86400 \<Longrightarrow> timeout \<le> (clock w - start) + 5 * n \<Longrightarrow>
         \<exists>k\<le>n. IsInstanceReady_loop (Suc n) env db iid timeout start w =
                  Some (Inr False, after_polls k env db iid w) \<and>
              timeout \<le> clock (after_polls k env db iid w) - start"
proof (induction n arbitrary: w)
  case 0
  then have "timeout \<le> timedelta_seconds (clock w) start"
    by (simp add: timedelta_seconds_def)
  with 0 show ?case by (auto simp: timedelta_seconds_def)
next
  case (Suc n)
  show ?case
  proof (cases "timeout \<le> timedelta_seconds (clock w) start")
    case True
    with Suc.prems have "IsInstanceReady_loop (Suc (Suc n)) env db iid timeout start w =
                  Some (Inr False, after_polls 0 env db iid w) \<and>
              timeout \<le> clock (after_polls 0 env db iid w) - start"
      by (auto simp: timedelta_seconds_def)
    then show ?thesis by blast
  next
    case False
    let ?w1 = "sleep 5 (described env db iid w)"
    let ?d = "duration (issue env (trace w) (RdsDescribeDbInstances iid (region db)))"
    have c: "clock ?w1 = clock w + ?d + 5" by (simp add: sleep_def described_eq)
    have dD: "?d \<le> D" using dur by blast
    from False Suc.prems have lt: "clock w - start < timeout" by (simp add: timedelta_seconds_def)
    have p: "poll_at env db iid w \<in> {NotReady, NoAnswer}" using nr by (simp add: poll_at_def)
    have step: "IsInstanceReady_loop (Suc (Suc n)) env db iid timeout start w =
                IsInstanceReady_loop (Suc n) env db iid timeout start ?w1"
      using loop_step[OF False, of "Suc n" env db iid] p by auto
    have "start \<le> clock ?w1" "clock ?w1 - start < 86400" "timeout \<le> (clock ?w1 - start) + 5 * n"
      using c dD lt bound Suc.prems by auto
    from Suc.IH[OF this] obtain k where k: "k \<le> n"
      "IsInstanceReady_loop (Suc n) env db iid timeout start ?w1 =
         Some (Inr False, after_polls k env db iid ?w1)"
      "timeout \<le> clock (after_polls k env db iid ?w1) - start" by blast
    with step have "Suc k \<le> Suc n \<and> IsInstanceReady_loop (Suc (Suc n)) env db iid timeout start w =
                  Some (Inr False, after_polls (Suc k) env db iid w) \<and>
              timeout \<le> clock (after_polls (Suc k) env db iid w) - start"
      by simp
    then show ?thesis by blast
  qed
qed

lemma PostCreate_multi_az:
  assumes "is_managed_db db" "high_availability db" "engine db \<in> set RDS_ENGINES"
    and "call_external env BasePostCreate w = (Inr b, w0)"
    and "IssueCommand env (RdsModifyDbInstance (instance_id db) (region db))
           (raise_on_failure_default env) w0 = (Inr x, w1)"
  shows "PostCreate fuel env db w =
           (case IsInstanceReady fuel env db (instance_id db) IS_READY_TIMEOUT w1 of
              None \<Rightarrow> None
            | Some (Inl e, w2) \<Rightarrow> Some (Inl e, db, w2)
            | Some (Inr ready, w2) \<Rightarrow>
                if ready then Some (PostCreate_finish env db w2)
                else Some (Inl (Exception
                       ''Instance could not be set to ready after modification for high availability''),
                       db, w2))"
  using assms
  by (cases "IsInstanceReady fuel env db (instance_id db) IS_READY_TIMEOUT w1")
     (auto simp: PostCreate_def Let_def split: sum.splits)

lemma PostCreate_finish_example:
  "fst (PostCreate_finish env_ha_ready ha_db w) = Inr () \<and>
   port (fst (snd (PostCreate_finish env_ha_ready ha_db w))) = Some 3306 \<and>
   endpoint (fst (snd (PostCreate_finish env_ha_ready ha_db w))) = Some (JStr ''db.example'') \<and>
   primary_zone (fst (snd (PostCreate_finish env_ha_ready ha_db w))) = Some (JStr ''us-east-1a'') \<and>
   secondary_zone (fst (snd (PostCreate_finish env_ha_ready ha_db w))) = Some (JStr ''us-east-1b'')"
  by (simp add: PostCreate_finish_def DescribeInstance_def IssueCommand_False env_ha_ready_def
      env_nothing_def result_of_json_def ha_instance_json_def ha_db_def new_db_def init_def
      SavePrimaryAndSecondaryZones_def AURORA_ENGINES_def GetPortsForWriterInstance_def
      ParseEndpointFromInstance_def ParsePortFromInstance_def call_external_def Let_def)

lemma modifying_not_ready:
  "poll_result_of (result_of_json (status_json ''modifying'' (JObj []) ''in-sync'')) = NotReady"
  by (simp add: poll_result_of_def result_of_json_def instance_status_status_json)
    (simp add: status_json_def)

lemma ha_instance_json_ready:
  "poll_result_of (result_of_json ha_instance_json) = Ready"
  by (simp add: poll_result_of_def result_of_json_def ha_instance_json_def instance_status_def)

lemma FailoverHA_example:
  "FailoverHA env_modifying aurora_db_in_use world0 =
     (Inr (), aurora_db_in_use,
      world0\<lparr>trace := [(Command (RdsFailoverDbCluster ''pkb-db-cluster-run1''
                                   ''pkb-db-instance-run1-us-east-1b'' ''us-east-1'') True,
                         Exit (result_of_json (status_json ''modifying'' (JObj []) ''in-sync'')))],
             clock := 1\<rparr>)"
  by (simp add: FailoverHA_def IssueCommand_def env_modifying_def env_nothing_def
      result_of_json_def Let_def world0_def aurora_db_in_use_def new_db_def init_def str_of_def
      AURORA_ENGINES_def RDS_ENGINES_def)

text \<open>
  C8. For a managed database of an RDS engine with high availability, once the command
  that makes the instance multi-AZ has returned, \<^verbatim>\<open>_PostCreate\<close> waits with
  \<^verbatim>\<open>_IsInstanceReady\<close> on the instance and the deadline \<^verbatim>\<open>IS_READY_TIMEOUT\<close>, the wait and
  the default deadline of \<^verbatim>\<open>_IsReady\<close>. If the wait returns False the method raises and
  does nothing more: with a provider that never reports the instance ready it raises
  after the deadline, having made only polls since the modification. If the instance is
  found ready the method goes on to read the zones, the endpoint and the port.
\<close>

theorem PostCreate_waits_after_multi_az:
  assumes "is_managed_db db" "high_availability db" "engine db \<in> set RDS_ENGINES"
    and "call_external env BasePostCreate w = (Inr b, w0)"
    and "IssueCommand env (RdsModifyDbInstance (instance_id db) (region db))
           (raise_on_failure_default env) w0 = (Inr x, w1)"
  shows "PostCreate fuel env db w =
           (case IsInstanceReady fuel env db (instance_id db) IS_READY_TIMEOUT w1 of
              None \<Rightarrow> None
            | Some (Inl e, w2) \<Rightarrow> Some (Inl e, db, w2)
            | Some (Inr ready, w2) \<Rightarrow>
                if ready then Some (PostCreate_finish env db w2)
                else Some (Inl (Exception
                       ''Instance could not be set to ready after modification for high availability''),
                       db, w2)) \<and>
         (all_instance_ids db = [instance_id db] \<longrightarrow>
            IsReady fuel env db IS_READY_TIMEOUT w1 =
            IsInstanceReady fuel env db (instance_id db) IS_READY_TIMEOUT w1) \<and>
         ((\<forall>tr. poll_result_of (issue env tr (RdsDescribeDbInstances (instance_id db) (region db)))
                 \<in> {NotReady, NoAnswer}) \<and>
          (\<forall>tr c. duration (issue env tr c) \<le> D) \<and> IS_READY_TIMEOUT + D + 5 \<le> 86400 \<longrightarrow>
            (\<exists>k\<le>720.
               PostCreate (Suc 720) env db w =
                 Some (Inl (Exception
                   ''Instance could not be set to ready after modification for high availability''),
                   db, after_polls k env db (instance_id db) w1) \<and>
               IS_READY_TIMEOUT \<le> clock (after_polls k env db (instance_id db) w1) - clock w1 \<and>
               calls (after_polls k env db (instance_id db) w1) =
                 calls w1 @ concat (replicate k (poll_calls db (instance_id db))))) \<and>
         (keeps_waiting k IS_READY_TIMEOUT (clock w1) env db (instance_id db) w1 \<and> k < fuel \<and>
          timedelta_seconds (clock (after_polls k env db (instance_id db) w1)) (clock w1)
            < IS_READY_TIMEOUT \<and>
          poll_at env db (instance_id db) (after_polls k env db (instance_id db) w1) = Ready \<longrightarrow>
            PostCreate fuel env db w =
              Some (PostCreate_finish env db
                      (described env db (instance_id db) (after_polls k env db (instance_id db) w1))))"
proof (intro conjI impI)
  note pc = PostCreate_multi_az[OF assms]
  show "PostCreate fuel env db w =
           (case IsInstanceReady fuel env db (instance_id db) IS_READY_TIMEOUT w1 of
              None \<Rightarrow> None
            | Some (Inl e, w2) \<Rightarrow> Some (Inl e, db, w2)
            | Some (Inr ready, w2) \<Rightarrow>
                if ready then Some (PostCreate_finish env db w2)
                else Some (Inl (Exception
                       ''Instance could not be set to ready after modification for high availability''),
                       db, w2))"
    by (rule pc)
  show "IsReady fuel env db IS_READY_TIMEOUT w1 =
        IsInstanceReady fuel env db (instance_id db) IS_READY_TIMEOUT w1"
    if "all_instance_ids db = [instance_id db]"
    using IsReady_single[OF assms(1) that] .
next
  assume a: "(\<forall>tr. poll_result_of (issue env tr (RdsDescribeDbInstances (instance_id db) (region db)))
                 \<in> {NotReady, NoAnswer}) \<and>
          (\<forall>tr c. duration (issue env tr c) \<le> D) \<and> IS_READY_TIMEOUT + D + 5 \<le> 86400"
  have "\<exists>k\<le>720. IsInstanceReady_loop (Suc 720) env db (instance_id db) IS_READY_TIMEOUT (clock w1) w1 =
                  Some (Inr False, after_polls k env db (instance_id db) w1) \<and>
              IS_READY_TIMEOUT \<le> clock (after_polls k env db (instance_id db) w1) - clock w1"
    using a by (intro loop_times_out_at[where D = D]) (auto simp: IS_READY_TIMEOUT_def)
  then obtain k where k: "k \<le> 720"
    "IsInstanceReady (Suc 720) env db (instance_id db) IS_READY_TIMEOUT w1 =
       Some (Inr False, after_polls k env db (instance_id db) w1)"
    "IS_READY_TIMEOUT \<le> clock (after_polls k env db (instance_id db) w1) - clock w1"
    unfolding IsInstanceReady_def by blast
  from PostCreate_multi_az[OF assms, of "Suc 720"] k(2)
  have "PostCreate (Suc 720) env db w =
          Some (Inl (Exception
                   ''Instance could not be set to ready after modification for high availability''),
                   db, after_polls k env db (instance_id db) w1)"
    by simp
  with k(1,3) after_polls_calls[of k env db "instance_id db" w1]
  show "\<exists>k\<le>720.
               PostCreate (Suc 720) env db w =
                 Some (Inl (Exception
                   ''Instance could not be set to ready after modification for high availability''),
                   db, after_polls k env db (instance_id db) w1) \<and>
               IS_READY_TIMEOUT \<le> clock (after_polls k env db (instance_id db) w1) - clock w1 \<and>
               calls (after_polls k env db (instance_id db) w1) =
                 calls w1 @ concat (replicate k (poll_calls db (instance_id db)))"
    by blast
next
  let ?iid = "instance_id db"
  let ?wk = "after_polls k env db ?iid w1"
  assume a: "keeps_waiting k IS_READY_TIMEOUT (clock w1) env db ?iid w1 \<and> k < fuel \<and>
          timedelta_seconds (clock ?wk) (clock w1) < IS_READY_TIMEOUT \<and>
          poll_at env db ?iid ?wk = Ready"
  from a obtain m where m: "fuel = k + Suc m" using less_imp_Suc_add by auto
  from a have run: "IsInstanceReady fuel env db ?iid IS_READY_TIMEOUT w1 =
      IsInstanceReady_loop (Suc m) env db ?iid IS_READY_TIMEOUT (clock w1) ?wk"
    unfolding IsInstanceReady_def m by (intro loop_runs) simp
  from a have nd: "\<not> IS_READY_TIMEOUT \<le> timedelta_seconds (clock ?wk) (clock w1)" by simp
  from loop_step[OF nd, of m env db ?iid] a run
  have "IsInstanceReady fuel env db ?iid IS_READY_TIMEOUT w1 = Some (Inr True, described env db ?iid ?wk)"
    by simp
  with PostCreate_multi_az[OF assms, of fuel]
  show "PostCreate fuel env db w = Some (PostCreate_finish env db (described env db ?iid ?wk))"
    by simp
qed

theorem PostCreate_waits_after_multi_az_witness:
  "is_managed_db ha_db \<and> high_availability ha_db \<and> engine ha_db \<in> set RDS_ENGINES \<and>
   (\<exists>w1 k. calls w1 = [External BasePostCreate,
                       Command (RdsModifyDbInstance ''pkb-db-instance-run1'' ''us-east-1'') True] \<and>
      PostCreate (Suc 720) env_modifying ha_db world0 =
        Some (Inl (Exception
                ''Instance could not be set to ready after modification for high availability''),
              ha_db, after_polls k env_modifying ha_db (instance_id ha_db) w1) \<and>
      IS_READY_TIMEOUT \<le> clock (after_polls k env_modifying ha_db (instance_id ha_db) w1) - clock w1) \<and>
   (\<exists>w1. PostCreate (Suc 0) env_ha_ready ha_db world0 =
            Some (PostCreate_finish env_ha_ready ha_db
                    (described env_ha_ready ha_db (instance_id ha_db) w1)) \<and>
          fst (PostCreate_finish env_ha_ready ha_db
                    (described env_ha_ready ha_db (instance_id ha_db) w1)) = Inr ())"
proof -
  have db: "is_managed_db ha_db" "high_availability ha_db" "engine ha_db \<in> set RDS_ENGINES"
    by (simp_all add: ha_db_def new_db_def init_def RDS_ENGINES_def)
  have ids: "instance_id ha_db = ''pkb-db-instance-run1''" "region ha_db = ''us-east-1''"
    by (simp_all add: ha_db_def new_db_def init_def)
  \<comment> \<open>the instance stays in state modifying\<close>
  obtain w0 where b: "call_external env_modifying BasePostCreate world0 = (Inr True, w0)"
    and c0: "calls w0 = [External BasePostCreate]"
    by (simp add: call_external_def env_modifying_def env_nothing_def calls_def world0_def)
  obtain x w1 where m: "IssueCommand env_modifying
      (RdsModifyDbInstance (instance_id ha_db) (region ha_db))
      (raise_on_failure_default env_modifying) w0 = (Inr x, w1)"
    by (simp add: IssueCommand_def env_modifying_def env_nothing_def result_of_json_def Let_def)
  have c1: "calls w1 = [External BasePostCreate,
                       Command (RdsModifyDbInstance ''pkb-db-instance-run1'' ''us-east-1'') True]"
    using IssueCommand_calls[OF m] c0 ids by (simp add: env_modifying_def env_nothing_def)
  have nr: "\<forall>tr. poll_result_of (issue env_modifying tr
               (RdsDescribeDbInstances (instance_id ha_db) (region ha_db))) \<in> {NotReady, NoAnswer}"
    by (simp add: env_modifying_def modifying_not_ready)
  have du: "\<forall>tr c. duration (issue env_modifying tr c) \<le> 1"
    by (simp add: env_modifying_def result_of_json_def)
  have bd: "IS_READY_TIMEOUT + 1 + 5 \<le> 86400" by (simp add: IS_READY_TIMEOUT_def)
  note T = PostCreate_waits_after_multi_az[OF db b m, of "Suc 720" 1 0]
  note T3 = T[THEN conjunct2, THEN conjunct2, THEN conjunct1]
  have "\<exists>k\<le>720. PostCreate (Suc 720) env_modifying ha_db world0 =
        Some (Inl (Exception
                ''Instance could not be set to ready after modification for high availability''),
              ha_db, after_polls k env_modifying ha_db (instance_id ha_db) w1) \<and>
      IS_READY_TIMEOUT \<le> clock (after_polls k env_modifying ha_db (instance_id ha_db) w1) - clock w1 \<and>
      calls (after_polls k env_modifying ha_db (instance_id ha_db) w1) =
        calls w1 @ concat (replicate k (poll_calls ha_db (instance_id ha_db)))"
    by (rule mp[OF T3]) (intro conjI nr du bd)
  then obtain k where A: "PostCreate (Suc 720) env_modifying ha_db world0 =
        Some (Inl (Exception
                ''Instance could not be set to ready after modification for high availability''),
              ha_db, after_polls k env_modifying ha_db (instance_id ha_db) w1)"
      "IS_READY_TIMEOUT \<le> clock (after_polls k env_modifying ha_db (instance_id ha_db) w1) - clock w1"
    by blast
  \<comment> \<open>the instance is available at the first poll\<close>
  obtain v0 where b': "call_external env_ha_ready BasePostCreate world0 = (Inr True, v0)"
    by (simp add: call_external_def env_ha_ready_def env_nothing_def)
  obtain y v1 where m': "IssueCommand env_ha_ready
      (RdsModifyDbInstance (instance_id ha_db) (region ha_db))
      (raise_on_failure_default env_ha_ready) v0 = (Inr y, v1)"
    by (simp add: IssueCommand_def env_ha_ready_def env_nothing_def result_of_json_def Let_def)
  have rd: "poll_at env_ha_ready ha_db (instance_id ha_db) v1 = Ready"
    by (simp add: poll_at_def env_ha_ready_def ha_instance_json_ready)
  have t: "timedelta_seconds (clock v1) (clock v1) < IS_READY_TIMEOUT"
    by (simp add: timedelta_seconds_def IS_READY_TIMEOUT_def)
  note U = PostCreate_waits_after_multi_az[OF db b' m', of "Suc 0" 1 0]
  note U4 = U[THEN conjunct2, THEN conjunct2, THEN conjunct2]
  have B: "PostCreate (Suc 0) env_ha_ready ha_db world0 =
            Some (PostCreate_finish env_ha_ready ha_db
                    (described env_ha_ready ha_db (instance_id ha_db) v1))"
    using mp[OF U4] rd t by (simp add: keeps_waiting_0)
  have C: "fst (PostCreate_finish env_ha_ready ha_db
                    (described env_ha_ready ha_db (instance_id ha_db) v1)) = Inr ()"
    using PostCreate_finish_example by blast
  from c1 A have "\<exists>w1 k. calls w1 = [External BasePostCreate,
                       Command (RdsModifyDbInstance ''pkb-db-instance-run1'' ''us-east-1'') True] \<and>
      PostCreate (Suc 720) env_modifying ha_db world0 =
        Some (Inl (Exception
                ''Instance could not be set to ready after modification for high availability''),
              ha_db, after_polls k env_modifying ha_db (instance_id ha_db) w1) \<and>
      IS_READY_TIMEOUT \<le> clock (after_polls k env_modifying ha_db (instance_id ha_db) w1) - clock w1"
    by blast
  moreover from B C have "\<exists>w1. PostCreate (Suc 0) env_ha_ready ha_db world0 =
            Some (PostCreate_finish env_ha_ready ha_db
                    (described env_ha_ready ha_db (instance_id ha_db) w1)) \<and>
          fst (PostCreate_finish env_ha_ready ha_db
                    (described env_ha_ready ha_db (instance_id ha_db) w1)) = Inr ()"
    by blast
  ultimately show ?thesis using db by (intro conjI)
qed

text \<open>
  C9, as amended. \<^verbatim>\<open>_FailoverHA\<close> issues one provider command and returns: for an RDS
  engine a reboot of the instance with forced failover, for an Aurora engine a failover
  of the cluster to the second instance of \<^verbatim>\<open>all_instance_ids\<close>. It does not change the
  object, so the instance and cluster identifiers (and every other attribute) are the
  same before and after.
\<close>

theorem FailoverHA_issues_one_command:
  assumes "FailoverHA env db w = (r, db', w')"
  shows "db' = db \<and>
         (if engine db \<in> set RDS_ENGINES then
            calls w' = calls w @
              [Command (RdsRebootDbInstance (instance_id db) (region db)) (raise_on_failure_default env)]
          else if engine db \<in> set AURORA_ENGINES then
            (case all_instance_ids db of
               i0 # new_primary_id # rest \<Rightarrow>
                 calls w' = calls w @
                   [Command (RdsFailoverDbCluster (str_of (cluster_id db)) new_primary_id (region db))
                      (raise_on_failure_default env)]
             | _ \<Rightarrow> r = Inl IndexError \<and> w' = w)
          else r = Inl (Exception ''Unknown how to failover'') \<and> w' = w)"
proof (cases "engine db \<in> set RDS_ENGINES")
  case True
  obtain r1 w1 where i: "IssueCommand env (RdsRebootDbInstance (instance_id db) (region db))
      (raise_on_failure_default env) w = (r1, w1)" by (rule prod.exhaust)
  from assms True i have "db' = db \<and> w' = w1"
    by (cases r1; simp add: FailoverHA_def)
  with True IssueCommand_calls[OF i] show ?thesis by simp
next
  case notrds: False
  show ?thesis
  proof (cases "engine db \<in> set AURORA_ENGINES")
    case False
    with assms notrds show ?thesis by (simp add: FailoverHA_def)
  next
    case True
    show ?thesis
    proof (cases "\<exists>i0 i1 rest. all_instance_ids db = i0 # i1 # rest")
      case False
      with assms notrds True show ?thesis
        by (auto simp: FailoverHA_def split: list.splits)
    next
      case ids: True
      then obtain i0 i1 rest where l: "all_instance_ids db = i0 # i1 # rest" by blast
      obtain r1 w1 where i: "IssueCommand env
          (RdsFailoverDbCluster (str_of (cluster_id db)) i1 (region db))
          (raise_on_failure_default env) w = (r1, w1)" by (rule prod.exhaust)
      from assms notrds True l i have "db' = db \<and> w' = w1"
        by (cases r1; simp add: FailoverHA_def)
      with notrds True l IssueCommand_calls[OF i] show ?thesis by simp
    qed
  qed
qed

theorem FailoverHA_issues_one_command_witness:
  "engine aurora_db_in_use \<in> set AURORA_ENGINES \<and>
   fst (FailoverHA env_modifying aurora_db_in_use world0) = Inr () \<and>
   fst (snd (FailoverHA env_modifying aurora_db_in_use world0)) = aurora_db_in_use \<and>
   calls (snd (snd (FailoverHA env_modifying aurora_db_in_use world0))) =
     [Command (RdsFailoverDbCluster ''pkb-db-cluster-run1'' ''pkb-db-instance-run1-us-east-1b''
                 ''us-east-1'') True]"
proof -
  let ?f = "FailoverHA env_modifying aurora_db_in_use world0"
  have e: "engine aurora_db_in_use \<in> set AURORA_ENGINES" "engine aurora_db_in_use \<notin> set RDS_ENGINES"
    by (simp_all add: aurora_db_in_use_def new_db_def init_def AURORA_ENGINES_def RDS_ENGINES_def)
  have l: "all_instance_ids aurora_db_in_use =
             [''pkb-db-instance-run1'', ''pkb-db-instance-run1-us-east-1b'']"
    "str_of (cluster_id aurora_db_in_use) = ''pkb-db-cluster-run1''"
    "region aurora_db_in_use = ''us-east-1''"
    by (simp_all add: aurora_db_in_use_def new_db_def init_def str_of_def)
  have d: "raise_on_failure_default env_modifying" "calls world0 = []"
    by (simp_all add: env_modifying_def env_nothing_def calls_def world0_def)
  have r: "fst ?f = Inr ()" by (simp add: FailoverHA_example)
  have h: "?f = (fst ?f, fst (snd ?f), snd (snd ?f))" by simp
  from FailoverHA_issues_one_command[OF h] e l d
  have "fst (snd ?f) = aurora_db_in_use \<and>
        calls (snd (snd ?f)) =
          [Command (RdsFailoverDbCluster ''pkb-db-cluster-run1'' ''pkb-db-instance-run1-us-east-1b''
                 ''us-east-1'') True]"
    by simp
  with e r show ?thesis by simp
qed

text \<open>
  The claim C9 as stated fails where it says that failover waits for the resource to
  report ready again: with a provider on which the failover command succeeds and the
  instances are not yet available, \<^verbatim>\<open>_FailoverHA\<close> returns normally having issued the
  failover command only, no describe command and no sleep, while no instance is ready.
\<close>

theorem FailoverHA_does_not_wait_counterexample:
  "fst (FailoverHA env_modifying aurora_db_in_use world0) = Inr () \<and>
   calls (snd (snd (FailoverHA env_modifying aurora_db_in_use world0))) =
     [Command (RdsFailoverDbCluster ''pkb-db-cluster-run1'' ''pkb-db-instance-run1-us-east-1b''
                 ''us-east-1'') True] \<and>
   poll_at env_modifying aurora_db_in_use ''pkb-db-instance-run1''
     (snd (snd (FailoverHA env_modifying aurora_db_in_use world0))) = NotReady \<and>
   poll_at env_modifying aurora_db_in_use ''pkb-db-instance-run1-us-east-1b''
     (snd (snd (FailoverHA env_modifying aurora_db_in_use world0))) = NotReady"
proof -
  have p: "poll_at env_modifying db iid w = NotReady" for db iid w
    by (simp add: poll_at_def env_modifying_def modifying_not_ready)
  show ?thesis
    by (simp add: FailoverHA_example p calls_def)
qed

subsection \<open>Further properties of the readiness wait and of existence\<close>

lemma loop_never_times_out:
  assumes "86400 \<le> timeout"
    and nr: "\<forall>tr. poll_result_of (issue env tr (RdsDescribeDbInstances iid (region db)))
                \<in> {NotReady, NoAnswer}"
  shows "IsInstanceReady_loop fuel env db iid timeout start w = None"
proof (induction fuel arbitrary: w)
  case 0
  then show ?case by simp
next
  case (Suc fuel)
  have "timedelta_seconds (clock w) start < 86400" by (simp add: timedelta_seconds_def)
  with assms(1) have nd: "\<not> timeout \<le> timedelta_seconds (clock w) start" by simp
  have p: "poll_at env db iid w \<in> {NotReady, NoAnswer}" using nr by (simp add: poll_at_def)
  from loop_step[OF nd, of fuel env db iid] p
  have "IsInstanceReady_loop (Suc fuel) env db iid timeout start w =
        IsInstanceReady_loop fuel env db iid timeout start (sleep 5 (described env db iid w))"
    by auto
  with Suc.IH show ?case by simp
qed

text \<open>
  X1. The deadline is compared with the seconds field of the elapsed time, which is
  always below 86400: with a deadline of a day or more the test never succeeds, and while
  the provider keeps reporting the instance not ready the loop of \<^verbatim>\<open>_IsInstanceReady\<close>
  does not end, whatever the number of passes allowed.
\<close>

theorem deadline_of_a_day_never_passes:
  "86400 \<le> timeout \<and>
   (\<forall>tr. poll_result_of (issue env tr (RdsDescribeDbInstances iid (region db)))
            \<in> {NotReady, NoAnswer}) \<longrightarrow>
   IsInstanceReady fuel env db iid timeout w = None"
  by (simp add: IsInstanceReady_def loop_never_times_out)

theorem deadline_of_a_day_never_passes_witness:
  "poll_result_of (issue env_modifying [] (RdsDescribeDbInstances ''db1'' (region (new_db True MYSQL))))
     = NotReady \<and>
   IsInstanceReady 100000 env_modifying (new_db True MYSQL) ''db1'' 86400 world0 = None"
proof -
  have nr: "\<forall>tr. poll_result_of (issue env_modifying tr
              (RdsDescribeDbInstances ''db1'' (region (new_db True MYSQL)))) \<in> {NotReady, NoAnswer}"
    by (simp add: env_modifying_def modifying_not_ready)
  have p: "poll_result_of (issue env_modifying []
              (RdsDescribeDbInstances ''db1'' (region (new_db True MYSQL)))) = NotReady"
    by (simp add: env_modifying_def modifying_not_ready)
  from deadline_of_a_day_never_passes[of 86400 env_modifying "''db1''" "new_db True MYSQL" 100000 world0]
       nr p
  show ?thesis by simp
qed

lemma DescribeInstance_not_found:
  "retcode (issue env (trace w) (RdsDescribeDbInstances iid (region db))) \<noteq> 0 \<Longrightarrow>
   DescribeInstance env db iid w = (Inr JNull, described env db iid w)"
  by (simp add: described_def DescribeInstance_def IssueCommand_False)

text \<open>
  X2. \<^verbatim>\<open>_Exists\<close> of an unmanaged database is False on the new object. For a managed
  database with at least one instance identifier, when the describe command for the first
  instance fails (the instance is not found) \<^verbatim>\<open>_Exists\<close> returns False without raising,
  after that one command.
\<close>

theorem Exists_false_when_not_found:
  "(\<not> managed \<longrightarrow>
      Exists env (init managed eng ha szones dzone uri cregion csubnet sg sip GetRegionFromZones) w
        = (Inr (Some False), w)) \<and>
   (is_managed_db db \<and> all_instance_ids db = iid # rest \<and>
    retcode (issue env (trace w) (RdsDescribeDbInstances iid (region db))) \<noteq> 0 \<longrightarrow>
      Exists env db w = (Inr (Some False), described env db iid w) \<and>
      calls (described env db iid w) = calls w @ [Command (RdsDescribeDbInstances iid (region db)) False])"
  by (auto simp: Exists_def init_def Let_def DescribeInstance_not_found described_eq calls_def)

theorem Exists_false_when_not_found_witness:
  "is_managed_db ((new_db True MYSQL)\<lparr>all_instance_ids := [''pkb-db-instance-run1'']\<rparr>) \<and>
   retcode (issue env_nothing (trace world0)
              (RdsDescribeDbInstances ''pkb-db-instance-run1'' ''us-east-1'')) \<noteq> 0 \<and>
   fst (Exists env_nothing ((new_db True MYSQL)\<lparr>all_instance_ids := [''pkb-db-instance-run1'']\<rparr>) world0)
     = Inr (Some False) \<and>
   Exists env_nothing (new_db False MYSQL) world0 = (Inr (Some False), world0)"
proof -
  let ?db = "(new_db True MYSQL)\<lparr>all_instance_ids := [''pkb-db-instance-run1'']\<rparr>"
  have m: "is_managed_db ?db" "all_instance_ids ?db = [''pkb-db-instance-run1'']"
    "region ?db = ''us-east-1''"
    by (simp_all add: new_db_def init_def)
  have f: "retcode (issue env_nothing (trace world0)
              (RdsDescribeDbInstances ''pkb-db-instance-run1'' ''us-east-1'')) \<noteq> 0"
    by (simp add: env_nothing_def failed_result_def)
  from Exists_false_when_not_found[of False env_nothing MYSQL False None "''us-east-1a''" "''run1''"
         "''us-east-1''" "AwsSubnet 0 ''us-east-1a''" "''sg-0''" "''10.0.0.9''" "\<lambda>zs. ''us-east-1''"
         world0 ?db "''pkb-db-instance-run1''" "[]"] m f
  show ?thesis by (simp add: new_db_def)
qed

end
